theory Spec2Isabelle
  imports Complex_Main "HOL-Library.Word" "HOL-Library.AList"
begin

unbundle bit_operations_syntax

section \<open>Data model (config.py)\<close>

text \<open>
  The dataclasses of \<^verbatim>\<open>config.py\<close>. Python's \<^verbatim>\<open>str | None\<close> is a
  \<open>string option\<close>, its unbounded \<^verbatim>\<open>int\<close> is \<open>int\<close>. The dictionary
  \<^verbatim>\<open>profiles\<close> keeps insertion order, which \<^verbatim>\<open>save\<close> walks, so it is
  an association list.
\<close>

record AuthConfig =
  access_token :: "string option"
  refresh_token :: "string option"
  expires_at :: "int option"
  athlete_id :: "int option"
  scopes :: "string list"

record DefaultsConfig =
  format :: string
  limit :: int

record Config =
  auth :: AuthConfig
  defaults :: DefaultsConfig
  profiles :: "(string \<times> AuthConfig) list"
  client_id :: "string option"
  client_secret :: "string option"

text \<open>The default instances \<^verbatim>\<open>AuthConfig()\<close>, \<^verbatim>\<open>DefaultsConfig()\<close>, \<^verbatim>\<open>Config()\<close>.\<close>

definition AuthConfig_default :: AuthConfig where
  "AuthConfig_default =
     \<lparr>access_token = None, refresh_token = None, expires_at = None,
      athlete_id = None, scopes = []\<rparr>"

definition DefaultsConfig_default :: DefaultsConfig where
  "DefaultsConfig_default = \<lparr>format = ''json'', limit = 30\<rparr>"

definition Config_default :: Config where
  "Config_default =
     \<lparr>auth = AuthConfig_default, defaults = DefaultsConfig_default, profiles = [],
      client_id = None, client_secret = None\<rparr>"

text \<open>
  Python truth value of an optional string or integer, as in \<^verbatim>\<open>if self.client_id:\<close>
  and \<^verbatim>\<open>if self.auth.expires_at:\<close>: \<^verbatim>\<open>None\<close>, the empty string and 0 are false.
\<close>

definition truthy_str :: "string option \<Rightarrow> bool" where
  "truthy_str v = (case v of None \<Rightarrow> False | Some s \<Rightarrow> s \<noteq> [])"

definition truthy_int :: "int option \<Rightarrow> bool" where
  "truthy_int v = (case v of None \<Rightarrow> False | Some n \<Rightarrow> n \<noteq> 0)"

text \<open>
  \<^verbatim>\<open>AuthConfig.is_authenticated\<close> and \<^verbatim>\<open>AuthConfig.is_expired\<close>. The clock
  \<^verbatim>\<open>time.time()\<close> is the argument \<open>now\<close>; Python compares the float with the
  integer exactly, so \<open>now\<close> is a real number.
\<close>

definition is_authenticated :: "AuthConfig \<Rightarrow> bool" where
  "is_authenticated a = (access_token a \<noteq> None)"

definition is_expired :: "real \<Rightarrow> AuthConfig \<Rightarrow> bool" where
  "is_expired now a =
     (case expires_at a of None \<Rightarrow> True | Some e \<Rightarrow> now \<ge> of_int e)"

text \<open>\<^verbatim>\<open>Config.get_profile\<close> and \<^verbatim>\<open>Config.clear_auth\<close>.\<close>

definition get_profile :: "Config \<Rightarrow> string option \<Rightarrow> AuthConfig" where
  "get_profile c name =
     (case name of
        None \<Rightarrow> auth c
      | Some n \<Rightarrow>
          (if n \<noteq> [] then
             (case map_of (profiles c) n of Some a \<Rightarrow> a | None \<Rightarrow> auth c)
           else auth c))"

definition clear_auth :: "Config \<Rightarrow> string option \<Rightarrow> Config" where
  "clear_auth c profile =
     (if truthy_str profile \<and> the profile \<in> fst ` set (profiles c)
      then c\<lparr>profiles := AList.update (the profile) AuthConfig_default (profiles c)\<rparr>
      else c\<lparr>auth := AuthConfig_default\<rparr>)"

section \<open>Exceptions (exceptions.py)\<close>

text \<open>
  Exceptions that are not part of the CLI's own hierarchy: the operating system's,
  the TOML reader's, \<^verbatim>\<open>ValueError\<close> of \<^verbatim>\<open>int()\<close>, and whatever the API
  library raises (with its text). \<open>OutsideModel\<close> is no Python exception: it marks a
  configuration file that the typed records below cannot hold or that lies outside
  the fragment of TOML modelled here; no statement is made about such files.
\<close>

datatype errno = EEXIST | ENOTDIR | EISDIR | ENOENT

datatype py_exception =
    OSError errno
  | TOMLDecodeError
  | ValueError
  | LibraryError string
  | OutsideModel

text \<open>The argument of \<^verbatim>\<open>TokenRefreshError\<close>: a literal, or \<^verbatim>\<open>str(e)\<close> of the cause.\<close>

datatype reason = Message string | Str py_exception

datatype exn =
    AuthenticationError string "string option"
  | TokenRefreshError reason
  | ConfigurationError string
  | MissingCredentialsError
  | Raised py_exception

definition AuthenticationError_default :: exn where
  "AuthenticationError_default =
     AuthenticationError ''Not authenticated. Run 'strava auth login' first.'' None"

text \<open>The class hierarchy, as \<^verbatim>\<open>except\<close> clauses see it, and the exit codes.\<close>

fun is_StravaCLIError :: "exn \<Rightarrow> bool" where
  "is_StravaCLIError (Raised _) = False"
| "is_StravaCLIError _ = True"

fun is_AuthenticationError :: "exn \<Rightarrow> bool" where
  "is_AuthenticationError (AuthenticationError _ _) = True"
| "is_AuthenticationError (TokenRefreshError _) = True"
| "is_AuthenticationError _ = False"

fun is_ConfigurationError :: "exn \<Rightarrow> bool" where
  "is_ConfigurationError (ConfigurationError _) = True"
| "is_ConfigurationError MissingCredentialsError = True"
| "is_ConfigurationError _ = False"

fun hint :: "exn \<Rightarrow> string option" where
  "hint (AuthenticationError _ h) = h"
| "hint (TokenRefreshError _) = Some ''Run 'strava auth login' to re-authenticate.''"
| "hint MissingCredentialsError =
     Some ''See 'strava auth login --help' for setup instructions.''"
| "hint _ = None"

section \<open>Writing the configuration file (Config.save, text part)\<close>

text \<open>
  \<^verbatim>\<open>f"{n}"\<close> for an integer: decimal digits, a minus sign for negative numbers.
\<close>

definition digit_char :: "nat \<Rightarrow> char" where
  "digit_char d = char_of (48 + d)"

function str_nat :: "nat \<Rightarrow> string" where
  "str_nat n = (if n < 10 then [digit_char n] else str_nat (n div 10) @ [digit_char (n mod 10)])"
  by pat_completeness auto
termination
  by (relation "measure id") auto

declare str_nat.simps [simp del]

definition str_int :: "int \<Rightarrow> string" where
  "str_int i = (if i < 0 then CHR ''-'' # str_nat (nat (- i)) else str_nat (nat i))"

text \<open>\<^verbatim>\<open>sep.join(xs)\<close> and the double-quoted form \<^verbatim>\<open>f'"{s}"'\<close>.\<close>

fun join :: "string \<Rightarrow> string list \<Rightarrow> string" where
  "join sep [] = []"
| "join sep [x] = x"
| "join sep (x # y # ys) = x @ sep @ join sep (y # ys)"

definition quoted :: "string \<Rightarrow> string" where
  "quoted s = CHR 0x22 # s @ [CHR 0x22]"

text \<open>
  One optional line of a section: \<^verbatim>\<open>if v: lines.append(f'key = "{v}"')\<close> for a
  string, \<^verbatim>\<open>if v: lines.append(f"key = {v}")\<close> for an integer.
\<close>

definition str_line :: "string \<Rightarrow> string option \<Rightarrow> string list" where
  "str_line key v =
     (case v of None \<Rightarrow> [] | Some s \<Rightarrow> if s \<noteq> [] then [key @ '' = '' @ quoted s] else [])"

definition int_line :: "string \<Rightarrow> int option \<Rightarrow> string list" where
  "int_line key v =
     (case v of None \<Rightarrow> [] | Some n \<Rightarrow> if n \<noteq> 0 then [key @ '' = '' @ str_int n] else [])"

text \<open>
  The four lines that the \<^verbatim>\<open>[auth]\<close> section and every \<^verbatim>\<open>[profiles.name]\<close>
  section write in the same way; \<^verbatim>\<open>[auth]\<close> adds the scopes, a profile does not.
\<close>

definition token_lines :: "AuthConfig \<Rightarrow> string list" where
  "token_lines a =
     str_line ''access_token'' (access_token a) @
     str_line ''refresh_token'' (refresh_token a) @
     int_line ''expires_at'' (expires_at a) @
     int_line ''athlete_id'' (athlete_id a)"

definition scopes_line :: "string list \<Rightarrow> string list" where
  "scopes_line ss =
     (if ss \<noteq> [] then [''scopes = ['' @ join '', '' (map quoted ss) @ '']''] else [])"

definition profile_lines :: "string \<times> AuthConfig \<Rightarrow> string list" where
  "profile_lines np = [''[profiles.'' @ fst np @ '']''] @ token_lines (snd np) @ [[]]"

definition save_lines :: "Config \<Rightarrow> string list" where
  "save_lines c =
     (if truthy_str (client_id c) \<or> truthy_str (client_secret c)
      then [''[client]''] @ str_line ''id'' (client_id c) @
           str_line ''secret'' (client_secret c) @ [[]]
      else []) @
     [''[auth]''] @ token_lines (auth c) @ scopes_line (scopes (auth c)) @ [[]] @
     [''[defaults]'',
      ''format = '' @ quoted (format (defaults c)),
      ''limit = '' @ str_int (limit (defaults c)),
      []] @
     concat (map profile_lines (profiles c))"

definition save_text :: "Config \<Rightarrow> string" where
  "save_text c = join [CHR 0x0A] (save_lines c)"

section \<open>Reading TOML (tomllib)\<close>

text \<open>
  \<^verbatim>\<open>tomllib\<close> is Python's standard library, not part of the repository. It is
  modelled from the TOML 1.0 grammar for the fragment that \<^verbatim>\<open>Config.save\<close> and the
  test fixtures write: lines separated by a line feed; blank lines; table headers
  \<^verbatim>\<open>[a]\<close> and \<^verbatim>\<open>[profiles.a]\<close> of bare keys; \<^verbatim>\<open>key = value\<close> with a bare key, one
  space on each side of the equals sign, and as value a basic string without escape
  sequences, a decimal integer, or an array of such strings separated by a comma and a
  space. The reader answers \<open>Malformed\<close> only where every TOML reader must reject the
  text (a header or string that does not close on its line, text after a closing quote,
  an empty key in a header, a key or table defined twice), and \<open>Unsupported\<close> for
  everything else outside the fragment, valid or not.
\<close>

datatype toml_error = Malformed | Unsupported

datatype toml_value = TString string | TInteger int | TArray "string list"

datatype toml_line = Blank | Header "string list" | KeyValue string toml_value

type_synonym toml_table = "(string \<times> toml_value) list"

type_synonym toml_doc = "(string list \<times> toml_table) list"

primrec split_on :: "char \<Rightarrow> string \<Rightarrow> string list" where
  "split_on c [] = [[]]"
| "split_on c (x # xs) =
     (if x = c then [] # split_on c xs
      else (case split_on c xs of [] \<Rightarrow> [[x]] | l # ls \<Rightarrow> (x # l) # ls))"

definition bare_char :: "char \<Rightarrow> bool" where
  "bare_char c =
     (let n = (of_char c :: nat)
      in (65 \<le> n \<and> n \<le> 90) \<or> (97 \<le> n \<and> n \<le> 122) \<or> (48 \<le> n \<and> n \<le> 57) \<or>
         n = 95 \<or> n = 45)"

definition plain_char :: "char \<Rightarrow> bool" where
  "plain_char c =
     (let n = (of_char c :: nat)
      in (n = 9 \<or> (32 \<le> n \<and> n \<le> 126)) \<and> n \<noteq> 34 \<and> n \<noteq> 92)"

definition is_digit :: "char \<Rightarrow> bool" where
  "is_digit c = (let n = (of_char c :: nat) in 48 \<le> n \<and> n \<le> 57)"

text \<open>
  A basic string, read from just after its opening quote: the content up to the next
  quote, and the rest of the line after that quote.
\<close>

definition parse_basic_string :: "string \<Rightarrow> toml_error + (string \<times> string)" where
  "parse_basic_string s =
     (let content = takeWhile (\<lambda>c. c \<noteq> CHR 0x22) s;
          rest = dropWhile (\<lambda>c. c \<noteq> CHR 0x22) s
      in if rest = [] then Inl Malformed
         else if list_all plain_char content then Inr (content, tl rest)
         else Inl Unsupported)"

text \<open>
  What follows a closing quote on the line of a string value, when it is not empty:
  blanks, a comment, a carriage return or another quote may be valid TOML outside the
  fragment; anything else is an error.
\<close>

definition after_string :: "string \<Rightarrow> toml_error" where
  "after_string rest =
     (let r = dropWhile (\<lambda>c. c = CHR '' '' \<or> c = CHR 0x09) rest
      in if r = [] \<or> hd r = CHR ''#'' \<or> hd r = CHR 0x0D \<or> hd rest = CHR 0x22
         then Unsupported else Malformed)"

function parse_array_items :: "string \<Rightarrow> toml_error + string list" where
  "parse_array_items s =
     (case s of
        [] \<Rightarrow> Inl Unsupported
      | c # cs \<Rightarrow>
          (if c \<noteq> CHR 0x22 then Inl Unsupported
           else if dropWhile (\<lambda>c. c \<noteq> CHR 0x22) cs = [] then Inl Unsupported
           else if \<not> list_all plain_char (takeWhile (\<lambda>c. c \<noteq> CHR 0x22) cs) then Inl Unsupported
           else
             (let item = takeWhile (\<lambda>c. c \<noteq> CHR 0x22) cs;
                  rest = tl (dropWhile (\<lambda>c. c \<noteq> CHR 0x22) cs)
              in if rest = '']'' then Inr [item]
                 else if take 2 rest = '', '' then
                   (case parse_array_items (drop 2 rest) of
                      Inl e \<Rightarrow> Inl e
                    | Inr items \<Rightarrow> Inr (item # items))
                 else Inl Unsupported)))"
  by pat_completeness auto
termination
proof (relation "measure length", goal_cases)
  case 1
  show ?case by simp
next
  case (2 s c cs item rest)
  have "length (dropWhile (\<lambda>c. c \<noteq> CHR 0x22) cs) \<le> length cs"
    by (rule length_dropWhile_le)
  with 2 show ?case by simp
qed

declare parse_array_items.simps [simp del]

definition nat_of_digits :: "string \<Rightarrow> nat" where
  "nat_of_digits ds = foldl (\<lambda>a c. 10 * a + (of_char c - 48)) 0 ds"

definition parse_integer :: "string \<Rightarrow> toml_error + toml_value" where
  "parse_integer v =
     (let neg = (v \<noteq> [] \<and> hd v = CHR ''-'');
          ds = (if neg then tl v else v)
      in if ds \<noteq> [] \<and> list_all is_digit ds \<and> (length ds = 1 \<or> hd ds \<noteq> CHR ''0'')
         then Inr (TInteger (if neg then - int (nat_of_digits ds) else int (nat_of_digits ds)))
         else Inl Unsupported)"

definition parse_value :: "string \<Rightarrow> toml_error + toml_value" where
  "parse_value v =
     (case v of
        [] \<Rightarrow> Inl Unsupported
      | c # cs \<Rightarrow>
          (if c = CHR 0x22 then
             (case parse_basic_string cs of
                Inl e \<Rightarrow> Inl e
              | Inr (s, rest) \<Rightarrow> if rest = [] then Inr (TString s) else Inl (after_string rest))
           else if c = CHR ''['' then
             (if cs = '']'' then Inr (TArray [])
              else (case parse_array_items cs of Inl e \<Rightarrow> Inl e | Inr items \<Rightarrow> Inr (TArray items)))
           else parse_integer v))"

text \<open>A table header, read from just after its opening bracket.\<close>

definition parse_header :: "string \<Rightarrow> toml_error + string list" where
  "parse_header l =
     (if CHR '']'' \<notin> set l then Inl Malformed
      else if last l \<noteq> CHR '']'' then Inl Unsupported
      else
        (let parts = split_on CHR ''.'' (butlast l)
         in if \<not> list_all (list_all bare_char) parts then Inl Unsupported
            else if [] \<in> set parts then Inl Malformed
            else Inr parts))"

definition parse_line :: "string \<Rightarrow> toml_error + toml_line" where
  "parse_line l =
     (case l of
        [] \<Rightarrow> Inr Blank
      | c # cs \<Rightarrow>
          (if c = CHR ''['' then
             (case parse_header cs of Inl e \<Rightarrow> Inl e | Inr p \<Rightarrow> Inr (Header p))
           else
             (let k = takeWhile bare_char l; r = dropWhile bare_char l
              in if k = [] \<or> take 3 r \<noteq> '' = '' then Inl Unsupported
                 else (case parse_value (drop 3 r) of
                         Inl e \<Rightarrow> Inl e
                       | Inr v \<Rightarrow> Inr (KeyValue k v)))))"

text \<open>
  The tables the reader accepts: any top-level table but \<^verbatim>\<open>[profiles]\<close> itself, and
  the tables \<^verbatim>\<open>[profiles.name]\<close>.
\<close>

definition supported_path :: "string list \<Rightarrow> bool" where
  "supported_path p =
     ((length p = 1 \<and> p \<noteq> [''profiles'']) \<or> (length p = 2 \<and> hd p = ''profiles''))"

text \<open>
  The document is built line by line, the table of the latest header being the last
  entry; the first offending line decides the error, as in a sequential reader.
\<close>

fun parse_lines :: "toml_doc \<Rightarrow> string list \<Rightarrow> toml_error + toml_doc" where
  "parse_lines doc [] = Inr doc"
| "parse_lines doc (l # ls) =
     (case parse_line l of
        Inl e \<Rightarrow> Inl e
      | Inr Blank \<Rightarrow> parse_lines doc ls
      | Inr (Header p) \<Rightarrow>
          (if p \<in> fst ` set doc then Inl Malformed
           else if \<not> supported_path p then Inl Unsupported
           else parse_lines (doc @ [(p, [])]) ls)
      | Inr (KeyValue k v) \<Rightarrow>
          (if doc = [] then Inl Unsupported
           else if k \<in> fst ` set (snd (last doc)) then Inl Malformed
           else parse_lines (butlast doc @ [(fst (last doc), snd (last doc) @ [(k, v)])]) ls))"

definition toml_loads :: "string \<Rightarrow> toml_error + toml_doc" where
  "toml_loads text = parse_lines [] (split_on (CHR 0x0A) text)"

section \<open>Loading the parsed document (load from file)\<close>

definition and_then :: "'e + 'a \<Rightarrow> ('a \<Rightarrow> 'e + 'b) \<Rightarrow> 'e + 'b" where
  "and_then r f = (case r of Inl e \<Rightarrow> Inl e | Inr x \<Rightarrow> f x)"

text \<open>
  \<^verbatim>\<open>table.get(key)\<close> into a typed field. Python stores whatever value the file
  holds; a value of another type than the field's is outside the typed model.
\<close>

definition get_string :: "toml_table \<Rightarrow> string \<Rightarrow> py_exception + string option" where
  "get_string t k =
     (case map_of t k of
        None \<Rightarrow> Inr None
      | Some (TString s) \<Rightarrow> Inr (Some s)
      | Some _ \<Rightarrow> Inl OutsideModel)"

definition get_integer :: "toml_table \<Rightarrow> string \<Rightarrow> py_exception + int option" where
  "get_integer t k =
     (case map_of t k of
        None \<Rightarrow> Inr None
      | Some (TInteger n) \<Rightarrow> Inr (Some n)
      | Some _ \<Rightarrow> Inl OutsideModel)"

definition get_strings :: "toml_table \<Rightarrow> string \<Rightarrow> py_exception + string list" where
  "get_strings t k =
     (case map_of t k of
        None \<Rightarrow> Inr []
      | Some (TArray ss) \<Rightarrow> Inr ss
      | Some _ \<Rightarrow> Inl OutsideModel)"

text \<open>The constructor call \<^verbatim>\<open>AuthConfig(access_token=d.get("access_token"), ...)\<close>.\<close>

definition auth_of_table :: "toml_table \<Rightarrow> py_exception + AuthConfig" where
  "auth_of_table t =
     and_then (get_string t ''access_token'') (\<lambda>tok.
     and_then (get_string t ''refresh_token'') (\<lambda>rtok.
     and_then (get_integer t ''expires_at'') (\<lambda>ex.
     and_then (get_integer t ''athlete_id'') (\<lambda>ath.
     and_then (get_strings t ''scopes'') (\<lambda>scs.
       Inr \<lparr>access_token = tok, refresh_token = rtok, expires_at = ex,
            athlete_id = ath, scopes = scs\<rparr>)))))"

definition defaults_of_table :: "toml_table \<Rightarrow> py_exception + DefaultsConfig" where
  "defaults_of_table t =
     and_then (get_string t ''format'') (\<lambda>f.
     and_then (get_integer t ''limit'') (\<lambda>l.
       Inr \<lparr>format = (case f of None \<Rightarrow> ''json'' | Some x \<Rightarrow> x),
            limit = (case l of None \<Rightarrow> 30 | Some n \<Rightarrow> n)\<rparr>))"

text \<open>The loop over \<^verbatim>\<open>profiles_data.items()\<close>: the tables \<^verbatim>\<open>[profiles.name]\<close> in file order.\<close>

fun profiles_of :: "toml_doc \<Rightarrow> py_exception + (string \<times> AuthConfig) list" where
  "profiles_of [] = Inr []"
| "profiles_of ((p, t) # rest) =
     (if length p = 2 \<and> hd p = ''profiles'' then
        and_then (auth_of_table t) (\<lambda>a.
        and_then (profiles_of rest) (\<lambda>ps. Inr ((p ! 1, a) # ps)))
      else profiles_of rest)"

text \<open>
  A section is used only if it is there and not empty (\<^verbatim>\<open>if auth_data := data.get("auth")\<close>).
\<close>

definition section_of :: "toml_doc \<Rightarrow> string \<Rightarrow> toml_table" where
  "section_of data name = (case map_of data [name] of None \<Rightarrow> [] | Some t \<Rightarrow> t)"

definition load_from_data :: "toml_doc \<Rightarrow> py_exception + Config" where
  "load_from_data data =
     and_then (if section_of data ''client'' \<noteq> []
               then and_then (get_string (section_of data ''client'') ''id'') (\<lambda>i.
                    and_then (get_string (section_of data ''client'') ''secret'') (\<lambda>s.
                      Inr (i, s)))
               else Inr (None, None)) (\<lambda>cl.
     and_then (if section_of data ''auth'' \<noteq> []
               then auth_of_table (section_of data ''auth'')
               else Inr AuthConfig_default) (\<lambda>a.
     and_then (if section_of data ''defaults'' \<noteq> []
               then defaults_of_table (section_of data ''defaults'')
               else Inr DefaultsConfig_default) (\<lambda>d.
     and_then (profiles_of data) (\<lambda>ps.
       Inr \<lparr>auth = a, defaults = d, profiles = ps,
            client_id = fst cl, client_secret = snd cl\<rparr>))))"

section \<open>Files, environment and the configuration path\<close>

text \<open>
  A path is its list of components from the root. A node is a file with its text and
  permission bits or a directory with its permission bits. Access checks are not
  modelled: the process owns what it touches.
\<close>

type_synonym path = "string list"

type_synonym mode = "16 word"

datatype node = File string mode | Dir mode

type_synonym filesystem = "path \<Rightarrow> node option"

text \<open>The constants of \<^verbatim>\<open>stat\<close>: 0o700, 0o400, 0o200.\<close>

definition S_IRWXU :: mode where "S_IRWXU = 448"
definition S_IRUSR :: mode where "S_IRUSR = 256"
definition S_IWUSR :: mode where "S_IWUSR = 128"

definition parent :: "path \<Rightarrow> path" where
  "parent p = butlast p"

text \<open>
  \<^verbatim>\<open>Path.mkdir(parents=True, exist_ok=True)\<close>, walking from the directory \<open>pre\<close>
  down the components \<open>rest\<close>: every missing directory on the way is made with mode
  0o777 less the umask; a file in the way is an error, and the directories made before
  it stay.
\<close>

fun mkdir_parents :: "mode \<Rightarrow> path \<Rightarrow> path \<Rightarrow> filesystem \<Rightarrow> errno option \<times> filesystem" where
  "mkdir_parents um pre rest fs =
     (case fs pre of
        Some (File t m) \<Rightarrow> (Some (if rest = [] then EEXIST else ENOTDIR), fs)
      | Some (Dir m) \<Rightarrow>
          (case rest of [] \<Rightarrow> (None, fs) | c # cs \<Rightarrow> mkdir_parents um (pre @ [c]) cs fs)
      | None \<Rightarrow>
          (case rest of
             [] \<Rightarrow> (None, fs(pre \<mapsto> Dir (511 AND NOT um)))
           | c # cs \<Rightarrow> mkdir_parents um (pre @ [c]) cs (fs(pre \<mapsto> Dir (511 AND NOT um)))))"

declare mkdir_parents.simps [simp del]

definition chmod :: "path \<Rightarrow> mode \<Rightarrow> filesystem \<Rightarrow> errno + filesystem" where
  "chmod p m fs =
     (case fs p of
        None \<Rightarrow> Inl ENOENT
      | Some (File t _) \<Rightarrow> Inr (fs(p \<mapsto> File t m))
      | Some (Dir _) \<Rightarrow> Inr (fs(p \<mapsto> Dir m)))"

text \<open>
  \<^verbatim>\<open>Path.write_text\<close>: an existing file keeps its mode, a new one gets 0o666 less the
  umask.
\<close>

definition write_text :: "mode \<Rightarrow> path \<Rightarrow> string \<Rightarrow> filesystem \<Rightarrow> errno + filesystem" where
  "write_text um p text fs =
     (case fs p of
        Some (Dir _) \<Rightarrow> Inl EISDIR
      | Some (File _ m) \<Rightarrow> Inr (fs(p \<mapsto> File text m))
      | None \<Rightarrow>
          (case fs (parent p) of
             Some (Dir _) \<Rightarrow> Inr (fs(p \<mapsto> File text (438 AND NOT um)))
           | Some (File _ _) \<Rightarrow> Inl ENOTDIR
           | None \<Rightarrow> Inl ENOENT))"

text \<open>
  What a run of the program sees and changes: the environment variables, the files,
  the home directory, the umask, and a trace of the requests sent to the token
  endpoint and of the error lines written. \<open>RefreshAttempt\<close> records an entry into
  \<^verbatim>\<open>StravaClient.refresh_token\<close>.
\<close>

datatype event =
    RefreshAttempt
  | TokenRequest string string string
  | CodeExchange string string string
  | Stderr string

record world =
  environ :: "string \<Rightarrow> string option"
  fs :: filesystem
  home :: path
  umask :: mode
  trace :: "event list"

definition Path :: "string \<Rightarrow> path" where
  "Path s = filter (\<lambda>c. c \<noteq> [] \<and> c \<noteq> ''.'') (split_on CHR ''/'' s)"

definition get_config_dir :: "world \<Rightarrow> path" where
  "get_config_dir w =
     (if truthy_str (environ w ''XDG_CONFIG_HOME'')
      then Path (the (environ w ''XDG_CONFIG_HOME'')) @ [''strava-cli'']
      else home w @ [''.config'', ''strava-cli''])"

definition get_config_path :: "world \<Rightarrow> path" where
  "get_config_path w = get_config_dir w @ [''config.toml'']"

section \<open>Config.load, Config.save, get client credentials\<close>

definition load_from_file :: "path \<Rightarrow> filesystem \<Rightarrow> exn + Config" where
  "load_from_file p files =
     (case files p of
        None \<Rightarrow> Inl (Raised (OSError ENOENT))
      | Some (Dir _) \<Rightarrow> Inl (Raised (OSError EISDIR))
      | Some (File text _) \<Rightarrow>
          (case toml_loads text of
             Inl Malformed \<Rightarrow> Inl (Raised TOMLDecodeError)
           | Inl Unsupported \<Rightarrow> Inl (Raised OutsideModel)
           | Inr data \<Rightarrow>
               (case load_from_data data of Inl e \<Rightarrow> Inl (Raised e) | Inr c \<Rightarrow> Inr c)))"

definition apply_env_overrides :: "(string \<Rightarrow> string option) \<Rightarrow> Config \<Rightarrow> Config" where
  "apply_env_overrides env c =
     (let c1 = (if truthy_str (env ''STRAVA_ACCESS_TOKEN'')
                then c\<lparr>auth := (auth c)\<lparr>access_token := env ''STRAVA_ACCESS_TOKEN''\<rparr>\<rparr>
                else c)
      in if truthy_str (env ''STRAVA_REFRESH_TOKEN'')
         then c1\<lparr>auth := (auth c1)\<lparr>refresh_token := env ''STRAVA_REFRESH_TOKEN''\<rparr>\<rparr>
         else c1)"

definition load :: "path option \<Rightarrow> world \<Rightarrow> exn + Config" where
  "load path w =
     (let config_path = (case path of Some p \<Rightarrow> p | None \<Rightarrow> get_config_path w)
      in case (if fs w config_path \<noteq> None then load_from_file config_path (fs w)
               else Inr Config_default) of
           Inl e \<Rightarrow> Inl e
         | Inr c \<Rightarrow> Inr (apply_env_overrides (environ w) c))"

definition save :: "Config \<Rightarrow> path option \<Rightarrow> world \<Rightarrow> (py_exception + unit) \<times> world" where
  "save c path w =
     (let config_path = (case path of Some p \<Rightarrow> p | None \<Rightarrow> get_config_path w)
      in case mkdir_parents (umask w) [] (parent config_path) (fs w) of
           (Some e, fs1) \<Rightarrow> (Inl (OSError e), w\<lparr>fs := fs1\<rparr>)
         | (None, fs1) \<Rightarrow>
             (case chmod (parent config_path) S_IRWXU fs1 of
                Inl e \<Rightarrow> (Inl (OSError e), w\<lparr>fs := fs1\<rparr>)
              | Inr fs2 \<Rightarrow>
                  (case write_text (umask w) config_path (save_text c) fs2 of
                     Inl e \<Rightarrow> (Inl (OSError e), w\<lparr>fs := fs2\<rparr>)
                   | Inr fs3 \<Rightarrow>
                       (case chmod config_path (S_IRUSR OR S_IWUSR) fs3 of
                          Inl e \<Rightarrow> (Inl (OSError e), w\<lparr>fs := fs3\<rparr>)
                        | Inr fs4 \<Rightarrow> (Inr (), w\<lparr>fs := fs4\<rparr>)))))"

definition get_client_credentials ::
  "Config option \<Rightarrow> world \<Rightarrow> exn + (string option \<times> string option)" where
  "get_client_credentials config w =
     (let cid = environ w ''STRAVA_CLIENT_ID'';
          csec = environ w ''STRAVA_CLIENT_SECRET''
      in if \<not> truthy_str cid \<or> \<not> truthy_str csec then
           (case (case config of None \<Rightarrow> load None w | Some c \<Rightarrow> Inr c) of
              Inl e \<Rightarrow> Inl e
            | Inr c \<Rightarrow>
                Inr (if \<not> truthy_str cid then client_id c else cid,
                     if \<not> truthy_str csec then client_secret c else csec))
         else Inr (cid, csec))"

section \<open>StravaClient (client.py)\<close>

definition emit :: "world \<Rightarrow> event \<Rightarrow> world" where
  "emit w e = w\<lparr>trace := trace w @ [e]\<rparr>"

text \<open>What the token endpoint returns for a refresh grant.\<close>

record token_response =
  resp_access_token :: string
  resp_refresh_token :: string
  resp_expires_at :: int

text \<open>
  The client holds the configuration and the profile name. Its attribute
  \<^verbatim>\<open>self.auth\<close> is the object that \<^verbatim>\<open>config.get_profile(profile)\<close> returned, a
  record inside \<^verbatim>\<open>self.config\<close>: reading it is \<open>client_auth\<close>, assigning to its
  fields is \<open>update_auth\<close>, which changes the configuration at that place.
\<close>

record StravaClient =
  config :: Config
  profile :: "string option"

definition client_auth :: "StravaClient \<Rightarrow> AuthConfig" where
  "client_auth sc = get_profile (config sc) (profile sc)"

definition update_auth :: "(AuthConfig \<Rightarrow> AuthConfig) \<Rightarrow> StravaClient \<Rightarrow> StravaClient" where
  "update_auth f sc =
     (let c = config sc;
          in_default = sc\<lparr>config := c\<lparr>auth := f (auth c)\<rparr>\<rparr>
      in case profile sc of
           None \<Rightarrow> in_default
         | Some n \<Rightarrow>
             (if n \<noteq> [] then
                (case map_of (profiles c) n of
                   Some a \<Rightarrow> sc\<lparr>config := c\<lparr>profiles := AList.update n (f a) (profiles c)\<rparr>\<rparr>
                 | None \<Rightarrow> in_default)
              else in_default))"

text \<open>
  \<^verbatim>\<open>StravaClient.refresh_token\<close>. The library call
  \<^verbatim>\<open>client.refresh_access_token\<close> is the argument \<open>endpoint\<close> (\<open>Inl\<close> the text of
  the exception it raised), Python's \<^verbatim>\<open>int()\<close> the argument \<open>py_int\<close>. The result
  carries the client and the world as they are when the method returns or raises.
\<close>

definition client_refresh_token ::
  "(int \<Rightarrow> string \<Rightarrow> string \<Rightarrow> string + token_response) \<Rightarrow> (string \<Rightarrow> int option) \<Rightarrow>
   StravaClient \<Rightarrow> world \<Rightarrow> (exn + bool) \<times> StravaClient \<times> world" where
  "client_refresh_token endpoint py_int sc w =
     (let w0 = emit w RefreshAttempt
      in case get_client_credentials None w of
           Inl e \<Rightarrow> (Inl e, sc, w0)
         | Inr (cid, csec) \<Rightarrow>
             (if \<not> truthy_str cid \<or> \<not> truthy_str csec then (Inl MissingCredentialsError, sc, w0)
              else if \<not> truthy_str (refresh_token (client_auth sc)) then
                (Inl (TokenRefreshError (Message ''No refresh token available'')), sc, w0)
              else
                (case py_int (the cid) of
                   None \<Rightarrow> (Inl (TokenRefreshError (Str ValueError)), sc, w0)
                 | Some n \<Rightarrow>
                     (let w1 = emit w0 (TokenRequest (the cid) (the csec)
                                         (the (refresh_token (client_auth sc))))
                      in case endpoint n (the csec) (the (refresh_token (client_auth sc))) of
                           Inl msg \<Rightarrow> (Inl (TokenRefreshError (Str (LibraryError msg))), sc, w1)
                         | Inr response \<Rightarrow>
                             (let sc1 = update_auth
                                    (\<lambda>a. a\<lparr>access_token := Some (resp_access_token response),
                                            refresh_token := Some (resp_refresh_token response),
                                            expires_at := Some (resp_expires_at response)\<rparr>) sc
                              in case save (config sc1) None w1 of
                                   (Inl e, w2) \<Rightarrow> (Inl (TokenRefreshError (Str e)), sc1, w2)
                                 | (Inr _, w2) \<Rightarrow> (Inr True, sc1, w2))))))"

text \<open>\<^verbatim>\<open>StravaClient.ensure_authenticated\<close>; the conjunction short-circuits.\<close>

definition ensure_authenticated ::
  "real \<Rightarrow> (int \<Rightarrow> string \<Rightarrow> string \<Rightarrow> string + token_response) \<Rightarrow> (string \<Rightarrow> int option) \<Rightarrow>
   StravaClient \<Rightarrow> world \<Rightarrow> (exn + unit) \<times> StravaClient \<times> world" where
  "ensure_authenticated now endpoint py_int sc w =
     (if \<not> is_authenticated (client_auth sc) then (Inl AuthenticationError_default, sc, w)
      else if is_expired now (client_auth sc) \<and> truthy_str (refresh_token (client_auth sc)) then
        (case client_refresh_token endpoint py_int sc w of
           (Inl e, sc1, w1) \<Rightarrow> (Inl e, sc1, w1)
         | (Inr ok, sc1, w1) \<Rightarrow>
             (if \<not> ok
              then (Inl (TokenRefreshError (Message ''Unable to refresh expired token'')), sc1, w1)
              else (Inr (), sc1, w1)))
      else (Inr (), sc, w))"

text \<open>
  \<^verbatim>\<open>StravaClient.handle_unauthorized\<close>: returning means that the caller should
  retry; \<^verbatim>\<open>except Exception: pass\<close> swallows whatever the refresh raised.
\<close>

definition unauthorized_error :: exn where
  "unauthorized_error =
     AuthenticationError ''Unauthorized. Your token may have expired.''
       (Some ''Run 'strava auth login' to re-authenticate.'')"

definition handle_unauthorized ::
  "(int \<Rightarrow> string \<Rightarrow> string \<Rightarrow> string + token_response) \<Rightarrow> (string \<Rightarrow> int option) \<Rightarrow>
   StravaClient \<Rightarrow> world \<Rightarrow> (exn + unit) \<times> StravaClient \<times> world" where
  "handle_unauthorized endpoint py_int sc w =
     (if truthy_str (refresh_token (client_auth sc)) then
        (case client_refresh_token endpoint py_int sc w of
           (Inr _, sc1, w1) \<Rightarrow> (Inr (), sc1, w1)
         | (Inl _, sc1, w1) \<Rightarrow> (Inl unauthorized_error, sc1, w1))
      else (Inl unauthorized_error, sc, w))"

section \<open>The command boundary (decorators.py, commands/auth.py)\<close>

text \<open>
  How a command ends: it returns, it leaves through \<^verbatim>\<open>typer.Exit(code)\<close>, or an
  exception escapes it.
\<close>

datatype outcome = Returned | Exited nat | Uncaught exn

fun exit_code :: "exn \<Rightarrow> nat" where
  "exit_code (AuthenticationError _ _) = 2"
| "exit_code (TokenRefreshError _) = 2"
| "exit_code (ConfigurationError _) = 2"
| "exit_code MissingCredentialsError = 2"
| "exit_code (Raised _) = 1"

text \<open>
  The wrapper of \<^verbatim>\<open>with_client\<close>: only a \<^verbatim>\<open>StravaCLIError\<close> is turned into an
  error line and an exit code; any other exception passes through.
\<close>

definition with_client ::
  "(StravaClient \<Rightarrow> world \<Rightarrow> (exn + unit) \<times> world) \<Rightarrow> path option \<Rightarrow> string option \<Rightarrow>
   world \<Rightarrow> outcome \<times> world" where
  "with_client func config_path prof w =
     (case (case load config_path w of
              Inl e \<Rightarrow> (Inl e, w)
            | Inr c \<Rightarrow> func \<lparr>config = c, profile = prof\<rparr> w) of
        (Inr _, w1) \<Rightarrow> (Returned, w1)
      | (Inl e, w1) \<Rightarrow>
          (if is_StravaCLIError e then (Exited (exit_code e), w1) else (Uncaught e, w1)))"

text \<open>
  \<^verbatim>\<open>auth.refresh_access_token\<close>: the POST to the token endpoint is the argument
  \<open>post\<close>; the result carries athlete id 0 and no scopes.
\<close>

record AuthResult =
  result_access_token :: string
  result_refresh_token :: string
  result_expires_at :: int
  result_athlete_id :: int
  result_scopes :: "string list"

definition refresh_access_token ::
  "(string \<Rightarrow> string \<Rightarrow> string \<Rightarrow> string + token_response) \<Rightarrow>
   string \<Rightarrow> string \<Rightarrow> string \<Rightarrow> string + AuthResult" where
  "refresh_access_token post cid csec rtok =
     (case post cid csec rtok of
        Inl msg \<Rightarrow> Inl msg
      | Inr d \<Rightarrow>
          Inr \<lparr>result_access_token = resp_access_token d,
               result_refresh_token = resp_refresh_token d,
               result_expires_at = resp_expires_at d,
               result_athlete_id = 0, result_scopes = []\<rparr>)"

text \<open>The command \<^verbatim>\<open>strava auth refresh\<close>.\<close>

definition refresh ::
  "(string \<Rightarrow> string \<Rightarrow> string \<Rightarrow> string + token_response) \<Rightarrow> world \<Rightarrow> outcome \<times> world" where
  "refresh post w =
     (case load None w of
        Inl e \<Rightarrow> (Uncaught e, w)
      | Inr cfg \<Rightarrow>
          (if \<not> truthy_str (refresh_token (auth cfg)) then
             (Exited 2,
              emit w (Stderr ''error: No refresh token available. Run 'strava auth login' first.''))
           else
             (case get_client_credentials None w of
                Inl e \<Rightarrow> (Uncaught e, w)
              | Inr (cid, csec) \<Rightarrow>
                  (if \<not> truthy_str cid \<or> \<not> truthy_str csec then
                     (Exited 2,
                      emit w (Stderr (''error: STRAVA_CLIENT_ID and STRAVA_CLIENT_SECRET '' @
                                     ''environment variables required'')))
                   else
                     (let w1 = emit w (TokenRequest (the cid) (the csec)
                                        (the (refresh_token (auth cfg))))
                      in case refresh_access_token post (the cid) (the csec)
                                (the (refresh_token (auth cfg))) of
                           Inl msg \<Rightarrow>
                             (Exited 1, emit w1 (Stderr (''error: Token refresh failed: '' @ msg)))
                         | Inr result \<Rightarrow>
                             (case save
                                     (cfg\<lparr>auth := (auth cfg)
                                        \<lparr>access_token := Some (result_access_token result),
                                         refresh_token := Some (result_refresh_token result),
                                         expires_at := Some (result_expires_at result)\<rparr>\<rparr>)
                                     None w1 of
                                (Inl e, w2) \<Rightarrow> (Exited 1, emit w2 (Stderr ''error: Token refresh failed''))
                              | (Inr _, w2) \<Rightarrow> (Returned, w2)))))))"

section \<open>The OAuth callback (auth.py)\<close>

text \<open>
  The class attributes of \<^verbatim>\<open>OAuthCallbackHandler\<close>, shared by the listener and the
  login flow.
\<close>

record OAuthCallbackHandler =
  auth_code :: "string option"
  state :: "string option"
  error :: "string option"

text \<open>
  \<^verbatim>\<open>urllib.parse.parse_qs\<close>, on the decoded name and value pairs of the query: the
  values given for a name, in order; blank values are dropped, so a name is in the
  result exactly when this list is not empty.
\<close>

definition parse_qs :: "(string \<times> string) list \<Rightarrow> string \<Rightarrow> string list" where
  "parse_qs query k = map snd (filter (\<lambda>nv. fst nv = k \<and> snd nv \<noteq> []) query)"

text \<open>\<^verbatim>\<open>do_GET\<close>, the part that records the request (the page it sends is left out).\<close>

definition do_GET :: "(string \<times> string) list \<Rightarrow> OAuthCallbackHandler \<Rightarrow> OAuthCallbackHandler" where
  "do_GET query h =
     (case parse_qs query ''error'' of
        e # _ \<Rightarrow> h\<lparr>error := Some e\<rparr>
      | [] \<Rightarrow>
          (case parse_qs query ''code'' of
             c # _ \<Rightarrow>
               h\<lparr>auth_code := Some c,
                 state := (case parse_qs query ''state'' of s # _ \<Rightarrow> Some s | [] \<Rightarrow> None)\<rparr>
           | [] \<Rightarrow> h))"

text \<open>\<^verbatim>\<open>start_callback_server\<close> resets the handler.\<close>

definition start_callback_server :: OAuthCallbackHandler where
  "start_callback_server = \<lparr>auth_code = None, state = None, error = None\<rparr>"

text \<open>
  What a login attempt gets from outside: the answer to the credentials prompt, the
  state token drawn by \<^verbatim>\<open>secrets.token_urlsafe\<close>, the query of the one request the
  listener handled (\<open>None\<close> when it timed out), and the token endpoint's answer to an
  exchange of the code.
\<close>

record login_input =
  prompt :: "(string \<times> string) option"
  state_token :: string
  callback :: "(string \<times> string) list option"
  exchange :: "string \<Rightarrow> string \<Rightarrow> string \<Rightarrow> string + AuthResult"

text \<open>
  \<^verbatim>\<open>interactive_login\<close> from the start of the listener on: the checks on the
  handler, in the order of the source, then the exchange.
\<close>

definition await_callback ::
  "login_input \<Rightarrow> string \<Rightarrow> string \<Rightarrow> world \<Rightarrow> AuthResult option \<times> world" where
  "await_callback io cid csec w =
     (let h = (case callback io of
                 None \<Rightarrow> start_callback_server
               | Some q \<Rightarrow> do_GET q start_callback_server)
      in if truthy_str (error h) then
           (None, emit w (Stderr (''error: Authorization failed: '' @ the (error h))))
         else if \<not> truthy_str (auth_code h) then
           (None, emit w (Stderr ''error: No authorization code received (timeout)''))
         else if state h \<noteq> Some (state_token io) then
           (None, emit w (Stderr ''error: State mismatch - possible CSRF attack''))
         else
           (let w1 = emit w (CodeExchange cid csec (the (auth_code h)))
            in case exchange io cid csec (the (auth_code h)) of
                 Inl msg \<Rightarrow> (None, emit w1 (Stderr (''error: Token exchange failed: '' @ msg)))
               | Inr result \<Rightarrow> (Some result, w1)))"

definition interactive_login ::
  "login_input \<Rightarrow> world \<Rightarrow> (exn + AuthResult option) \<times> world" where
  "interactive_login io w =
     (case load None w of
        Inl e \<Rightarrow> (Inl e, w)
      | Inr cfg \<Rightarrow>
          (case get_client_credentials (Some cfg) w of
             Inl e \<Rightarrow> (Inl e, w)
           | Inr (cid, csec) \<Rightarrow>
               (if \<not> truthy_str cid \<or> \<not> truthy_str csec then
                  (case prompt io of
                     None \<Rightarrow> (Inr None, w)
                   | Some (i, s) \<Rightarrow>
                       (case save (cfg\<lparr>client_id := Some i, client_secret := Some s\<rparr>) None w of
                          (Inl e, w1) \<Rightarrow> (Inl (Raised e), w1)
                        | (Inr _, w1) \<Rightarrow>
                            (case await_callback io i s w1 of (r, w2) \<Rightarrow> (Inr r, w2))))
                else
                  (case await_callback io (the cid) (the csec) w of (r, w2) \<Rightarrow> (Inr r, w2)))))"

section \<open>What is written and what is read back\<close>

text \<open>
  The configurations whose text needs no escaping: every string is made of characters
  that may stand unescaped in a basic string, and every profile name is a non-empty
  bare key. For these, \<open>toml_of\<close> is the document that the written lines denote
  and \<open>reloaded\<close> the configuration that reading it gives: values that are false
  for Python (empty strings, 0) were not written and come back absent.
\<close>

definition opt_plain :: "string option \<Rightarrow> bool" where
  "opt_plain v = (case v of None \<Rightarrow> True | Some s \<Rightarrow> list_all plain_char s)"

definition bare_key :: "string \<Rightarrow> bool" where
  "bare_key k = (k \<noteq> [] \<and> list_all bare_char k)"

definition str_entry :: "string \<Rightarrow> string option \<Rightarrow> toml_table" where
  "str_entry k v = (case v of None \<Rightarrow> [] | Some s \<Rightarrow> if s \<noteq> [] then [(k, TString s)] else [])"

definition int_entry :: "string \<Rightarrow> int option \<Rightarrow> toml_table" where
  "int_entry k v = (case v of None \<Rightarrow> [] | Some n \<Rightarrow> if n \<noteq> 0 then [(k, TInteger n)] else [])"

definition token_entries :: "AuthConfig \<Rightarrow> toml_table" where
  "token_entries a =
     str_entry ''access_token'' (access_token a) @
     str_entry ''refresh_token'' (refresh_token a) @
     int_entry ''expires_at'' (expires_at a) @
     int_entry ''athlete_id'' (athlete_id a)"

definition scopes_entry :: "string list \<Rightarrow> toml_table" where
  "scopes_entry ss = (if ss \<noteq> [] then [(''scopes'', TArray ss)] else [])"

definition client_table :: "Config \<Rightarrow> toml_doc" where
  "client_table c =
     (if truthy_str (client_id c) \<or> truthy_str (client_secret c)
      then [([''client''], str_entry ''id'' (client_id c) @ str_entry ''secret'' (client_secret c))]
      else [])"

definition profile_table :: "string \<times> AuthConfig \<Rightarrow> string list \<times> toml_table" where
  "profile_table np = ([''profiles'', fst np], token_entries (snd np))"

definition toml_of :: "Config \<Rightarrow> toml_doc" where
  "toml_of c =
     client_table c @
     [([''auth''], token_entries (auth c) @ scopes_entry (scopes (auth c))),
      ([''defaults''],
       [(''format'', TString (format (defaults c))), (''limit'', TInteger (limit (defaults c)))])] @
     map profile_table (profiles c)"

definition writable_tokens :: "AuthConfig \<Rightarrow> bool" where
  "writable_tokens a = (opt_plain (access_token a) \<and> opt_plain (refresh_token a))"

definition writable :: "Config \<Rightarrow> bool" where
  "writable c =
     (opt_plain (client_id c) \<and> opt_plain (client_secret c) \<and>
      writable_tokens (auth c) \<and> list_all (list_all plain_char) (scopes (auth c)) \<and>
      list_all plain_char (format (defaults c)) \<and>
      list_all (\<lambda>np. bare_key (fst np) \<and> writable_tokens (snd np)) (profiles c) \<and>
      distinct (map fst (profiles c)))"

definition kept_str :: "string option \<Rightarrow> string option" where
  "kept_str v = (if truthy_str v then v else None)"

definition kept_int :: "int option \<Rightarrow> int option" where
  "kept_int v = (if truthy_int v then v else None)"

definition kept_tokens :: "AuthConfig \<Rightarrow> string list \<Rightarrow> AuthConfig" where
  "kept_tokens a ss =
     \<lparr>access_token = kept_str (access_token a), refresh_token = kept_str (refresh_token a),
      expires_at = kept_int (expires_at a), athlete_id = kept_int (athlete_id a), scopes = ss\<rparr>"

definition reloaded :: "Config \<Rightarrow> Config" where
  "reloaded c =
     \<lparr>auth = kept_tokens (auth c) (scopes (auth c)), defaults = defaults c,
      profiles = map (\<lambda>np. (fst np, kept_tokens (snd np) [])) (profiles c),
      client_id = kept_str (client_id c), client_secret = kept_str (client_secret c)\<rparr>"

section \<open>Observations on the trace\<close>

text \<open>
  Counting the entries into \<^verbatim>\<open>refresh_token\<close> and the requests sent to the token
  endpoint, and the condition under which the login flow accepts a callback: no
  error, a code, and a state equal to the generated token.
\<close>

definition refresh_attempts :: "event list \<Rightarrow> nat" where
  "refresh_attempts evs = count_list evs RefreshAttempt"

fun is_TokenRequest :: "event \<Rightarrow> bool" where
  "is_TokenRequest (TokenRequest _ _ _) = True"
| "is_TokenRequest _ = False"

definition token_requests :: "event list \<Rightarrow> nat" where
  "token_requests evs = length (filter is_TokenRequest evs)"

fun is_CodeExchange :: "event \<Rightarrow> bool" where
  "is_CodeExchange (CodeExchange _ _ _) = True"
| "is_CodeExchange _ = False"

definition accepted :: "login_input \<Rightarrow> bool" where
  "accepted io =
     (case callback io of
        None \<Rightarrow> False
      | Some q \<Rightarrow> parse_qs q ''error'' = [] \<and> parse_qs q ''code'' \<noteq> [] \<and>
                  take 1 (parse_qs q ''state'') = [state_token io])"

section \<open>Concrete inputs\<close>

text \<open>
  Inputs at which the theorems below are evaluated: a world with nothing but a root
  directory (mode 0o755, umask 0o022), a token endpoint that is down, a reader of
  decimal numerals for \<^verbatim>\<open>int()\<close>, and some configurations.
\<close>

definition bare_world :: world where
  "bare_world =
     \<lparr>environ = Map.empty, fs = [[] \<mapsto> Dir 493], home = [''home'', ''u''], umask = 18,
      trace = []\<rparr>"

definition endpoint_down :: "int \<Rightarrow> string \<Rightarrow> string \<Rightarrow> string + token_response" where
  "endpoint_down n s r = Inl ''unreachable''"

definition decimal_int :: "string \<Rightarrow> int option" where
  "decimal_int s = (case parse_integer s of Inr (TInteger n) \<Rightarrow> Some n | _ \<Rightarrow> None)"

definition unnamed_profile_doc :: Config where
  "unnamed_profile_doc =
     Config_default
       \<lparr>auth := AuthConfig_default\<lparr>access_token := Some ''main''\<rparr>,
        profiles := [([], AuthConfig_default\<lparr>access_token := Some ''tok''\<rparr>)]\<rparr>"

definition work_profile_doc :: Config where
  "work_profile_doc =
     Config_default
       \<lparr>profiles := [(''work'', AuthConfig_default\<lparr>access_token := Some ''tok''\<rparr>)]\<rparr>"

definition stale_client :: StravaClient where
  "stale_client =
     \<lparr>config = Config_default
        \<lparr>auth := AuthConfig_default\<lparr>access_token := Some ''tok'', expires_at := Some 0\<rparr>\<rparr>,
      profile = None\<rparr>"

definition refreshable_client :: StravaClient where
  "refreshable_client =
     \<lparr>config = Config_default
        \<lparr>auth := AuthConfig_default
           \<lparr>access_token := Some ''tok'', refresh_token := Some ''r'', expires_at := Some 0\<rparr>\<rparr>,
      profile = None\<rparr>"

definition loose_world :: world where
  "loose_world =
     bare_world\<lparr>fs := [[] \<mapsto> Dir 493, [''etc''] \<mapsto> Dir 493,
                       [''etc'', ''config.toml''] \<mapsto> File ''old'' 420]\<rparr>"

definition truncated_world :: world where
  "truncated_world = bare_world\<lparr>fs := [[] \<mapsto> Dir 493, [''cfg.toml''] \<mapsto> File ''[auth'' 384]\<rparr>"

definition no_command :: "StravaClient \<Rightarrow> world \<Rightarrow> (exn + unit) \<times> world" where
  "no_command sc w = (Inr (), w)"

definition file_credentials_doc :: Config where
  "file_credentials_doc =
     Config_default\<lparr>client_id := Some ''file-id'', client_secret := Some ''file-secret'',
                    auth := AuthConfig_default\<lparr>access_token := Some ''file-token''\<rparr>\<rparr>"

definition override_world :: world where
  "override_world =
     bare_world
       \<lparr>environ := [''STRAVA_CLIENT_ID'' \<mapsto> ''env-id'', ''STRAVA_CLIENT_SECRET'' \<mapsto> ''env-secret'',
                    ''STRAVA_ACCESS_TOKEN'' \<mapsto> ''env-token''],
        fs := [[] \<mapsto> Dir 493, [''cfg.toml''] \<mapsto> File (save_text file_credentials_doc) 384]\<rparr>"

definition granted :: AuthResult where
  "granted =
     \<lparr>result_access_token = ''a1'', result_refresh_token = ''r1'',
      result_expires_at = 2000000000, result_athlete_id = 42, result_scopes = [''read'']\<rparr>"

definition exchange_ok :: "string \<Rightarrow> string \<Rightarrow> string \<Rightarrow> string + AuthResult" where
  "exchange_ok i s c = Inr granted"

definition denied_login :: login_input where
  "denied_login =
     \<lparr>prompt = None, state_token = ''tok'',
      callback = Some [(''error'', ''access_denied''), (''code'', ''abc''), (''state'', ''tok'')],
      exchange = exchange_ok\<rparr>"

definition silent_login :: login_input where
  "silent_login =
     \<lparr>prompt = None, state_token = ''tok'', callback = None, exchange = exchange_ok\<rparr>"

definition forged_login :: login_input where
  "forged_login =
     \<lparr>prompt = None, state_token = ''tok'',
      callback = Some [(''code'', ''abc''), (''state'', ''evil'')], exchange = exchange_ok\<rparr>"

definition good_login :: login_input where
  "good_login =
     \<lparr>prompt = None, state_token = ''tok'',
      callback = Some [(''code'', ''abc''), (''state'', ''tok'')], exchange = exchange_ok\<rparr>"

definition cred_world :: world where
  "cred_world =
     bare_world\<lparr>environ := [''STRAVA_CLIENT_ID'' \<mapsto> ''12345'',
                            ''STRAVA_CLIENT_SECRET'' \<mapsto> ''s3cret'']\<rparr>"

definition new_tokens :: token_response where
  "new_tokens =
     \<lparr>resp_access_token = ''a1'', resp_refresh_token = ''r1'', resp_expires_at = 2000000000\<rparr>"

definition endpoint_ok :: "int \<Rightarrow> string \<Rightarrow> string \<Rightarrow> string + token_response" where
  "endpoint_ok n s r = Inr new_tokens"

definition post_down :: "string \<Rightarrow> string \<Rightarrow> string \<Rightarrow> string + token_response" where
  "post_down i s r = Inl ''unreachable''"

definition athlete_client :: StravaClient where
  "athlete_client =
     \<lparr>config = Config_default
        \<lparr>auth := AuthConfig_default
           \<lparr>access_token := Some ''tok'', refresh_token := Some ''r'', expires_at := Some 0,
            athlete_id := Some 42\<rparr>\<rparr>,
      profile = None\<rparr>"

definition token_only_world :: world where
  "token_only_world = bare_world\<lparr>environ := [''STRAVA_REFRESH_TOKEN'' \<mapsto> ''r'']\<rparr>"

definition sample_doc :: Config where
  "sample_doc =
     \<lparr>auth = \<lparr>access_token = Some ''tok'', refresh_token = Some ''ref'',
              expires_at = Some 1700000000, athlete_id = Some 42,
              scopes = [''read'', ''activity:read'']\<rparr>,
      defaults = DefaultsConfig_default,
      profiles = [(''work'', \<lparr>access_token = Some ''w-tok'', refresh_token = None,
                              expires_at = Some 5, athlete_id = None, scopes = [''read'']\<rparr>)],
      client_id = Some ''12345'', client_secret = Some ''s3cret''\<rparr>"

definition quote_doc :: Config where
  "quote_doc =
     Config_default
       \<lparr>auth := AuthConfig_default\<lparr>access_token := Some [CHR ''a'', CHR 0x22, CHR ''b'']\<rparr>\<rparr>"

section \<open>Theorems\<close>

text \<open>
  C6. \<^verbatim>\<open>is_authenticated\<close> holds exactly when an access token is present, whatever
  the other fields are; \<^verbatim>\<open>is_expired\<close> holds exactly when \<^verbatim>\<open>expires_at\<close> is
  absent or not after the current time.
\<close>

theorem token_predicates:
  "(is_authenticated a \<longleftrightarrow> (\<exists>t. access_token a = Some t)) \<and>
   is_authenticated (a\<lparr>refresh_token := r, expires_at := e, athlete_id := i, scopes := s\<rparr>)
     = is_authenticated a \<and>
   (is_expired now a \<longleftrightarrow>
      expires_at a = None \<or> (\<exists>t. expires_at a = Some t \<and> real_of_int t \<le> now)) \<and>
   (is_expired now a = False \<longleftrightarrow> (\<exists>t. expires_at a = Some t \<and> now < real_of_int t))"
  by (cases "expires_at a") (auto simp: is_authenticated_def is_expired_def)

subsection \<open>Helper facts\<close>

lemma save_trace: "trace (snd (save c p w)) = trace w"
  by (simp add: save_def Let_def split: prod.splits option.splits sum.splits)

lemma save_environ: "environ (snd (save c p w)) = environ w"
  by (simp add: save_def Let_def split: prod.splits option.splits sum.splits)

lemma save_home: "home (snd (save c p w)) = home w"
  by (simp add: save_def Let_def split: prod.splits option.splits sum.splits)

lemma client_auth_update: "client_auth (update_auth f sc) = f (client_auth sc)"
  by (auto simp: client_auth_def update_auth_def get_profile_def Let_def update_conv'
           split: option.splits)

lemma save_result_trace: "save c p w = (r, w') \<Longrightarrow> trace w' = trace w"
  using save_trace [of c p w] by simp

lemma refresh_trace:
  "\<exists>evs. trace (snd (snd (client_refresh_token endpoint py_int sc w)))
            = trace w @ RefreshAttempt # evs \<and>
         (evs = [] \<or> (\<exists>a b c. evs = [TokenRequest a b c]))"
  by (auto simp: client_refresh_token_def Let_def emit_def
      split: sum.splits option.splits prod.splits dest!: save_result_trace)

lemma refresh_result:
  "(\<exists>e. fst (client_refresh_token endpoint py_int sc w) = Inl e) \<or>
   fst (client_refresh_token endpoint py_int sc w) = Inr True"
  by (auto simp: client_refresh_token_def Let_def split: sum.splits option.splits prod.splits)

lemma butlast_self: "butlast p = p \<Longrightarrow> p = []"
  by (cases p rule: rev_cases) auto

lemma mkdir_parents_dir:
  "mkdir_parents um pre rest files = (None, files') \<Longrightarrow> \<exists>m. files' (pre @ rest) = Some (Dir m)"
proof (induction um pre rest files rule: mkdir_parents.induct)
  case (1 um pre rest files)
  from "1.prems" show ?case
    by (subst (asm) mkdir_parents.simps)
       (auto split: option.splits node.splits list.splits dest: "1.IH")
qed

lemma save_completed:
  assumes "save c path w = (Inr (), w')"
    and "p = (case path of Some q \<Rightarrow> q | None \<Rightarrow> get_config_path w)"
  shows "fs w' p = Some (File (save_text c) 384) \<and> fs w' (parent p) = Some (Dir 448)"
proof -
  from assms obtain fs1 fs2 fs3 fs4 where
      mk: "mkdir_parents (umask w) [] (parent p) (fs w) = (None, fs1)"
    and c1: "chmod (parent p) S_IRWXU fs1 = Inr fs2"
    and wr: "write_text (umask w) p (save_text c) fs2 = Inr fs3"
    and c2: "chmod p (S_IRUSR OR S_IWUSR) fs3 = Inr fs4"
    and w': "w' = w\<lparr>fs := fs4\<rparr>"
    by (auto simp: save_def Let_def split: prod.splits option.splits sum.splits)
  from mkdir_parents_dir [OF mk] obtain m where d: "fs1 (parent p) = Some (Dir m)" by auto
  from c1 d have fs2: "fs2 = fs1(parent p \<mapsto> Dir 448)"
    by (auto simp: chmod_def S_IRWXU_def)
  have ne: "p \<noteq> parent p"
  proof
    assume "p = parent p"
    with wr fs2 show False by (auto simp: write_text_def split: option.splits node.splits)
  qed
  from wr obtain m3 where fs3: "fs3 = fs2(p \<mapsto> File (save_text c) m3)"
    by (auto simp: write_text_def split: option.splits node.splits)
  from c2 fs3 have fs4: "fs4 = fs3(p \<mapsto> File (save_text c) 384)"
    by (auto simp: chmod_def S_IRUSR_def S_IWUSR_def)
  show ?thesis using ne by (simp add: w' fs4 fs3 fs2)
qed

lemma load_malformed:
  "fs w p = Some (File text m) \<Longrightarrow> toml_loads text = Inl Malformed \<Longrightarrow>
   load (Some p) w = Inl (Raised TOMLDecodeError)"
  by (simp add: load_def load_from_file_def)

lemma load_missing:
  "fs w p = None \<Longrightarrow> load (Some p) w = Inr (apply_env_overrides (environ w) Config_default)"
  by (simp add: load_def)

lemma parse_qs_nonblank: "parse_qs q k = e # es \<Longrightarrow> e \<noteq> []"
proof -
  assume "parse_qs q k = e # es"
  then have "e \<in> set (parse_qs q k)" by simp
  then show ?thesis by (auto simp: parse_qs_def)
qed

lemma await_callback_exchanges:
  "filter is_CodeExchange (trace (snd (await_callback io cid csec w)))
     \<noteq> filter is_CodeExchange (trace w) \<Longrightarrow> accepted io"
  by (auto simp: await_callback_def accepted_def do_GET_def start_callback_server_def emit_def
        truthy_str_def Let_def
      split: option.splits list.splits sum.splits if_splits)

lemma get_config_path_log: "get_config_path (emit w e) = get_config_path w"
  by (simp add: get_config_path_def get_config_dir_def emit_def)

subsection \<open>Clearing a profile\<close>

text \<open>
  C10, as stated, fails for the empty profile name: when the empty string is a key of
  \<^verbatim>\<open>profiles\<close>, \<^verbatim>\<open>clear_auth\<close> leaves that profile as it is and resets the default
  record (the guard \<^verbatim>\<open>if profile and profile in self.profiles\<close>).
\<close>

theorem clear_auth_counterexample:
  "[] \<in> fst ` set (profiles unnamed_profile_doc) \<and>
   map_of (profiles (clear_auth unnamed_profile_doc (Some []))) [] \<noteq> Some AuthConfig_default \<and>
   auth (clear_auth unnamed_profile_doc (Some [])) \<noteq> auth unnamed_profile_doc"
  by (simp add: unnamed_profile_doc_def clear_auth_def truthy_str_def Config_default_def
        AuthConfig_default_def)

text \<open>
  C10, amended. For a non-empty name that is a key of \<^verbatim>\<open>profiles\<close>,
  \<^verbatim>\<open>clear_auth\<close> resets that profile's record to the all-absent record, keeps the
  keys and their order, and leaves every other profile and the default record
  unchanged. For a name that is empty or not a key, it resets the default record and
  leaves the profiles unchanged.
\<close>

theorem clear_auth_profile:
  "(n \<noteq> [] \<and> n \<in> fst ` set (profiles c) \<longrightarrow>
      map_of (profiles (clear_auth c (Some n))) n = Some AuthConfig_default \<and>
      map fst (profiles (clear_auth c (Some n))) = map fst (profiles c) \<and>
      (\<forall>m. m \<noteq> n \<longrightarrow> map_of (profiles (clear_auth c (Some n))) m = map_of (profiles c) m) \<and>
      auth (clear_auth c (Some n)) = auth c) \<and>
   (n = [] \<or> n \<notin> fst ` set (profiles c) \<longrightarrow>
      auth (clear_auth c (Some n)) = AuthConfig_default \<and>
      profiles (clear_auth c (Some n)) = profiles c)"
  by (auto simp: clear_auth_def truthy_str_def update_conv' update_keys)

theorem clear_auth_profile_witness:
  "map_of (profiles (clear_auth work_profile_doc (Some ''work''))) ''work''
     = Some AuthConfig_default \<and>
   auth (clear_auth work_profile_doc (Some ''work'')) = auth work_profile_doc \<and>
   auth (clear_auth unnamed_profile_doc (Some ''home'')) = AuthConfig_default \<and>
   profiles (clear_auth unnamed_profile_doc (Some ''home'')) = profiles unnamed_profile_doc"
  using clear_auth_profile [of "''work''" work_profile_doc]
        clear_auth_profile [of "''home''" unnamed_profile_doc]
  by (simp add: unnamed_profile_doc_def work_profile_doc_def Config_default_def)

subsection \<open>Ensuring authentication\<close>

text \<open>
  C1, as stated, fails: a record with an access token, an expiry in the past and no
  refresh token passes \<^verbatim>\<open>ensure_authenticated\<close>, which returns without an error.
\<close>

theorem ensure_authenticated_counterexample:
  "is_authenticated (client_auth stale_client) \<and> is_expired 1 (client_auth stale_client) \<and>
   refresh_token (client_auth stale_client) = None \<and>
   ensure_authenticated 1 endpoint_down decimal_int stale_client bare_world
     = (Inr (), stale_client, bare_world)"
  by (simp add: stale_client_def client_auth_def get_profile_def is_authenticated_def
        is_expired_def ensure_authenticated_def Config_default_def AuthConfig_default_def
        truthy_str_def)

text \<open>
  C1, amended. For every record that is authenticated, expired and without a refresh
  token, \<^verbatim>\<open>ensure_authenticated\<close> raises nothing: it returns at once, attempts no
  refresh and leaves the client and the world as they are.
\<close>

theorem ensure_authenticated_without_refresh_token:
  assumes "is_authenticated (client_auth sc)"
    and "is_expired now (client_auth sc)"
    and "\<not> truthy_str (refresh_token (client_auth sc))"
  shows "ensure_authenticated now endpoint py_int sc w = (Inr (), sc, w)"
  using assms by (simp add: ensure_authenticated_def)

theorem ensure_authenticated_without_refresh_token_witness:
  "ensure_authenticated 1 endpoint_down decimal_int stale_client bare_world
     = (Inr (), stale_client, bare_world)"
proof -
  have a: "is_authenticated (client_auth stale_client)"
    by (simp add: stale_client_def client_auth_def get_profile_def is_authenticated_def
        Config_default_def AuthConfig_default_def)
  have b: "is_expired 1 (client_auth stale_client)"
    by (simp add: stale_client_def client_auth_def get_profile_def is_expired_def
        Config_default_def AuthConfig_default_def)
  have c: "\<not> truthy_str (refresh_token (client_auth stale_client))"
    by (simp add: stale_client_def client_auth_def get_profile_def truthy_str_def
        Config_default_def AuthConfig_default_def)
  show ?thesis by (rule ensure_authenticated_without_refresh_token [OF a b c])
qed

subsection \<open>Unauthorized responses\<close>

text \<open>
  C7. One call of \<^verbatim>\<open>handle_unauthorized\<close>: if a refresh token exists (is present
  and not empty, as the code tests it), \<^verbatim>\<open>refresh_token\<close> is entered exactly once
  and at most one request goes to the token endpoint; if the refresh succeeds the
  handler returns, so that the caller retries; if it fails, or if there is no refresh
  token (then nothing is attempted at all), the handler raises the
  \<^verbatim>\<open>AuthenticationError\<close> with the hint to log in again.
\<close>

theorem handle_unauthorized_single_refresh:
  "(truthy_str (refresh_token (client_auth sc)) \<longrightarrow>
      refresh_attempts (trace (snd (snd (handle_unauthorized endpoint py_int sc w))))
        = refresh_attempts (trace w) + 1 \<and>
      token_requests (trace (snd (snd (handle_unauthorized endpoint py_int sc w))))
        \<le> token_requests (trace w) + 1 \<and>
      (fst (client_refresh_token endpoint py_int sc w) = Inr True \<longrightarrow>
         fst (handle_unauthorized endpoint py_int sc w) = Inr ()) \<and>
      ((\<exists>e. fst (client_refresh_token endpoint py_int sc w) = Inl e) \<longrightarrow>
         fst (handle_unauthorized endpoint py_int sc w) = Inl unauthorized_error)) \<and>
   (\<not> truthy_str (refresh_token (client_auth sc)) \<longrightarrow>
      handle_unauthorized endpoint py_int sc w = (Inl unauthorized_error, sc, w)) \<and>
   is_AuthenticationError unauthorized_error \<and>
   hint unauthorized_error = Some ''Run 'strava auth login' to re-authenticate.''"
proof -
  obtain r sc1 w1 where res: "client_refresh_token endpoint py_int sc w = (r, sc1, w1)"
    by (cases "client_refresh_token endpoint py_int sc w") auto
  from refresh_trace [of endpoint py_int sc w] res
  obtain evs where tr: "trace w1 = trace w @ RefreshAttempt # evs"
    and evs: "evs = [] \<or> (\<exists>a b c. evs = [TokenRequest a b c])"
    by auto
  have h: "handle_unauthorized endpoint py_int sc w =
      (if truthy_str (refresh_token (client_auth sc))
       then (case r of Inr _ \<Rightarrow> (Inr (), sc1, w1) | Inl _ \<Rightarrow> (Inl unauthorized_error, sc1, w1))
       else (Inl unauthorized_error, sc, w))"
    by (simp add: handle_unauthorized_def res split: sum.splits)
  from evs have n: "refresh_attempts (trace w1) = refresh_attempts (trace w) + 1"
    and m: "token_requests (trace w1) \<le> token_requests (trace w) + 1"
    by (auto simp: tr refresh_attempts_def token_requests_def)
  show ?thesis
    using n m by (auto simp: h res unauthorized_error_def split: sum.splits)
qed

theorem handle_unauthorized_single_refresh_witness:
  "truthy_str (refresh_token (client_auth refreshable_client)) \<and>
   refresh_attempts (trace (snd (snd
      (handle_unauthorized endpoint_down decimal_int refreshable_client bare_world)))) = 1 \<and>
   fst (handle_unauthorized endpoint_down decimal_int refreshable_client bare_world)
     = Inl unauthorized_error \<and>
   handle_unauthorized endpoint_down decimal_int stale_client bare_world
     = (Inl unauthorized_error, stale_client, bare_world)"
proof -
  have a: "truthy_str (refresh_token (client_auth refreshable_client))"
    by (simp add: refreshable_client_def client_auth_def get_profile_def truthy_str_def
        Config_default_def AuthConfig_default_def)
  have b: "\<not> truthy_str (refresh_token (client_auth stale_client))"
    by (simp add: stale_client_def client_auth_def get_profile_def truthy_str_def
        Config_default_def AuthConfig_default_def)
  have c: "\<exists>e. fst (client_refresh_token endpoint_down decimal_int refreshable_client bare_world) = Inl e"
    using refresh_result [of endpoint_down decimal_int refreshable_client bare_world]
    by (auto simp: client_refresh_token_def Let_def emit_def bare_world_def get_client_credentials_def
        truthy_str_def load_def get_config_path_def get_config_dir_def apply_env_overrides_def
        Config_default_def split: sum.splits)
  have d: "refresh_attempts (trace bare_world) = 0"
    by (simp add: bare_world_def refresh_attempts_def)
  show ?thesis
    using handle_unauthorized_single_refresh [of refreshable_client endpoint_down decimal_int bare_world]
          handle_unauthorized_single_refresh [of stale_client endpoint_down decimal_int bare_world]
          a b c d
    by simp
qed

subsection \<open>Permissions after saving\<close>

text \<open>
  C9. Whenever \<^verbatim>\<open>save\<close> completes, at the given path or at the default one, the
  configuration file holds the written text with mode 0o600 (384) and its directory
  has mode 0o700 (448), whatever the modes were before.
\<close>

theorem save_sets_modes:
  assumes "save c path w = (Inr (), w')"
    and "p = (case path of Some q \<Rightarrow> q | None \<Rightarrow> get_config_path w)"
  shows "fs w' p = Some (File (save_text c) 384) \<and> fs w' (parent p) = Some (Dir 448)"
  using save_completed [OF assms] .

theorem save_sets_modes_witness:
  "fs loose_world [''etc'', ''config.toml''] = Some (File ''old'' 420) \<and>
   fs loose_world [''etc''] = Some (Dir 493) \<and>
   fs (snd (save Config_default (Some [''etc'', ''config.toml'']) loose_world)) [''etc'', ''config.toml'']
     = Some (File (save_text Config_default) 384) \<and>
   fs (snd (save Config_default (Some [''etc'', ''config.toml'']) loose_world)) [''etc'']
     = Some (Dir 448)"
proof -
  have s: "fst (save Config_default (Some [''etc'', ''config.toml'']) loose_world) = Inr ()"
    by (simp add: save_def loose_world_def bare_world_def chmod_def write_text_def parent_def
        mkdir_parents.simps)
  then have "save Config_default (Some [''etc'', ''config.toml'']) loose_world
      = (Inr (), snd (save Config_default (Some [''etc'', ''config.toml'']) loose_world))"
    by (metis prod.collapse)
  from save_sets_modes [OF this, of "[''etc'', ''config.toml'']"]
  show ?thesis by (simp add: loose_world_def bare_world_def parent_def)
qed

subsection \<open>A malformed configuration file\<close>

text \<open>
  C5. At a file that holds only the text \<^verbatim>\<open>[auth\<close>, \<^verbatim>\<open>Config.load\<close> raises the TOML
  reader's \<^verbatim>\<open>TOMLDecodeError\<close>, which is no \<^verbatim>\<open>ConfigurationError\<close> and which the
  wrapper of \<^verbatim>\<open>with_client\<close> lets escape.
\<close>

theorem load_malformed_file:
  "load (Some [''cfg.toml'']) truncated_world = Inl (Raised TOMLDecodeError) \<and>
   \<not> is_ConfigurationError (Raised TOMLDecodeError) \<and>
   with_client no_command (Some [''cfg.toml'']) None truncated_world
     = (Uncaught (Raised TOMLDecodeError), truncated_world)"
proof -
  have "toml_loads ''[auth'' = Inl Malformed"
    by (simp add: toml_loads_def parse_line_def parse_header_def)
  then have "load (Some [''cfg.toml'']) truncated_world = Inl (Raised TOMLDecodeError)"
    by (intro load_malformed [of _ _ "''[auth''" 384])
       (simp_all add: truncated_world_def)
  then show ?thesis by (simp add: with_client_def)
qed

subsection \<open>Environment overrides\<close>

text \<open>
  C8, as stated, fails for the client credentials: with both variables set in the
  environment, \<^verbatim>\<open>Config.load\<close> still returns the client id and secret of the file.
\<close>

theorem load_client_credentials_counterexample:
  "environ override_world ''STRAVA_CLIENT_ID'' = Some ''env-id'' \<and>
   environ override_world ''STRAVA_CLIENT_SECRET'' = Some ''env-secret'' \<and>
   map_sum id client_id (load (Some [''cfg.toml'']) override_world) = Inr (Some ''file-id'') \<and>
   map_sum id client_secret (load (Some [''cfg.toml'']) override_world) = Inr (Some ''file-secret'')"
  by code_simp

subsection \<open>The OAuth callback\<close>

text \<open>
  C2. The outcomes of the callback in \<^verbatim>\<open>interactive_login\<close>: an error reported by
  the provider fails the flow with the provider's text, and nothing is exchanged; no
  request, or a request without a code, fails as a timeout; a code with a state other
  than the generated token fails as a state mismatch, and the code is not exchanged;
  a code with the matching state is exchanged. A request to exchange a code is made
  only in the last case.
\<close>

theorem oauth_callback_outcomes:
  "(\<forall>q e es. callback io = Some q \<and> parse_qs q ''error'' = e # es \<longrightarrow>
      await_callback io cid csec w
        = (None, emit w (Stderr (''error: Authorization failed: '' @ e)))) \<and>
   (callback io = None \<or>
    (\<exists>q. callback io = Some q \<and> parse_qs q ''error'' = [] \<and> parse_qs q ''code'' = []) \<longrightarrow>
      await_callback io cid csec w
        = (None, emit w (Stderr ''error: No authorization code received (timeout)''))) \<and>
   (\<forall>q c cs. callback io = Some q \<and> parse_qs q ''error'' = [] \<and> parse_qs q ''code'' = c # cs \<and>
      take 1 (parse_qs q ''state'') \<noteq> [state_token io] \<longrightarrow>
      await_callback io cid csec w
        = (None, emit w (Stderr ''error: State mismatch - possible CSRF attack''))) \<and>
   (\<forall>q c cs. callback io = Some q \<and> parse_qs q ''error'' = [] \<and> parse_qs q ''code'' = c # cs \<and>
      take 1 (parse_qs q ''state'') = [state_token io] \<longrightarrow>
      await_callback io cid csec w
        = (case exchange io cid csec c of
             Inl msg \<Rightarrow> (None, emit (emit w (CodeExchange cid csec c))
                                 (Stderr (''error: Token exchange failed: '' @ msg)))
           | Inr result \<Rightarrow> (Some result, emit w (CodeExchange cid csec c)))) \<and>
   (filter is_CodeExchange (trace (snd (interactive_login io w)))
      \<noteq> filter is_CodeExchange (trace w) \<longrightarrow> accepted io)"
proof (intro conjI allI impI)
  fix q e es
  assume a: "callback io = Some q \<and> parse_qs q ''error'' = e # es"
  then have "e \<noteq> []" using parse_qs_nonblank by blast
  with a show "await_callback io cid csec w
        = (None, emit w (Stderr (''error: Authorization failed: '' @ e)))"
    by (simp add: await_callback_def do_GET_def start_callback_server_def truthy_str_def)
next
  assume "callback io = None \<or>
    (\<exists>q. callback io = Some q \<and> parse_qs q ''error'' = [] \<and> parse_qs q ''code'' = [])"
  then show "await_callback io cid csec w
        = (None, emit w (Stderr ''error: No authorization code received (timeout)''))"
    by (auto simp: await_callback_def do_GET_def start_callback_server_def truthy_str_def)
next
  fix q c cs
  assume a: "callback io = Some q \<and> parse_qs q ''error'' = [] \<and> parse_qs q ''code'' = c # cs \<and>
      take 1 (parse_qs q ''state'') \<noteq> [state_token io]"
  then have "c \<noteq> []" using parse_qs_nonblank by blast
  with a show "await_callback io cid csec w
        = (None, emit w (Stderr ''error: State mismatch - possible CSRF attack''))"
    by (auto simp: await_callback_def do_GET_def start_callback_server_def truthy_str_def
        split: list.splits)
next
  fix q c cs
  assume a: "callback io = Some q \<and> parse_qs q ''error'' = [] \<and> parse_qs q ''code'' = c # cs \<and>
      take 1 (parse_qs q ''state'') = [state_token io]"
  then have "c \<noteq> []" using parse_qs_nonblank by blast
  with a show "await_callback io cid csec w
        = (case exchange io cid csec c of
             Inl msg \<Rightarrow> (None, emit (emit w (CodeExchange cid csec c))
                                 (Stderr (''error: Token exchange failed: '' @ msg)))
           | Inr result \<Rightarrow> (Some result, emit w (CodeExchange cid csec c)))"
    by (auto simp: await_callback_def do_GET_def start_callback_server_def truthy_str_def Let_def
        split: list.splits sum.splits)
next
  assume a: "filter is_CodeExchange (trace (snd (interactive_login io w)))
      \<noteq> filter is_CodeExchange (trace w)"
  show "accepted io"
  proof (rule ccontr)
    assume n: "\<not> accepted io"
    have k: "\<And>i s v. filter is_CodeExchange (trace (snd (await_callback io i s v)))
        = filter is_CodeExchange (trace v)"
      using await_callback_exchanges n by blast
    have "filter is_CodeExchange (trace (snd (interactive_login io w)))
        = filter is_CodeExchange (trace w)"
      by (auto simp: interactive_login_def k [THEN arg_cong] split: sum.splits prod.splits option.splits
          dest!: save_result_trace)
         (metis k snd_conv)+
    with a show False by simp
  qed
qed

theorem oauth_callback_outcomes_witness:
  "await_callback denied_login ''id'' ''sec'' bare_world
     = (None, emit bare_world (Stderr ''error: Authorization failed: access_denied'')) \<and>
   await_callback silent_login ''id'' ''sec'' bare_world
     = (None, emit bare_world (Stderr ''error: No authorization code received (timeout)'')) \<and>
   await_callback forged_login ''id'' ''sec'' bare_world
     = (None, emit bare_world (Stderr ''error: State mismatch - possible CSRF attack'')) \<and>
   await_callback good_login ''id'' ''sec'' bare_world
     = (Some granted, emit bare_world (CodeExchange ''id'' ''sec'' ''abc'')) \<and>
   filter is_CodeExchange (trace (snd (interactive_login good_login cred_world)))
     \<noteq> filter is_CodeExchange (trace cred_world) \<and>
   accepted good_login"
proof -
  have t: "filter is_CodeExchange (trace (snd (interactive_login good_login cred_world)))
     \<noteq> filter is_CodeExchange (trace cred_world)"
    by (simp add: interactive_login_def good_login_def cred_world_def bare_world_def load_def
        get_config_path_def get_config_dir_def truthy_str_def apply_env_overrides_def
        get_client_credentials_def await_callback_def do_GET_def parse_qs_def
        start_callback_server_def exchange_ok_def emit_def Let_def)
  show ?thesis
    using oauth_callback_outcomes [of denied_login "''id''" "''sec''" bare_world]
          oauth_callback_outcomes [of silent_login "''id''" "''sec''" bare_world]
          oauth_callback_outcomes [of forged_login "''id''" "''sec''" bare_world]
          oauth_callback_outcomes [of good_login "''id''" "''sec''" bare_world]
          oauth_callback_outcomes [of good_login "''id''" "''sec''" cred_world]
          t
    by (simp add: denied_login_def silent_login_def forged_login_def good_login_def
        parse_qs_def exchange_ok_def)
qed

subsection \<open>Environment overrides, amended\<close>

text \<open>
  C8, amended. After loading the file, \<^verbatim>\<open>Config.load\<close> replaces the access token
  and the refresh token of the default record by the environment's value whenever the
  variable is set and not empty; it leaves the client id and secret as the file has
  them. For these two, \<^verbatim>\<open>get_client_credentials\<close> gives the environment's value
  precedence whenever that is set and not empty, and otherwise returns the loaded one.
\<close>

theorem env_overrides:
  assumes "load path w = Inr c"
    and "p = (case path of Some q \<Rightarrow> q | None \<Rightarrow> get_config_path w)"
  shows "(truthy_str (environ w ''STRAVA_ACCESS_TOKEN'') \<longrightarrow>
            access_token (auth c) = environ w ''STRAVA_ACCESS_TOKEN'') \<and>
         (truthy_str (environ w ''STRAVA_REFRESH_TOKEN'') \<longrightarrow>
            refresh_token (auth c) = environ w ''STRAVA_REFRESH_TOKEN'') \<and>
         (\<forall>c0. fs w p \<noteq> None \<and> load_from_file p (fs w) = Inr c0 \<longrightarrow>
            client_id c = client_id c0 \<and> client_secret c = client_secret c0) \<and>
         (\<exists>cid csec. get_client_credentials (Some c) w = Inr (cid, csec) \<and>
            cid = (if truthy_str (environ w ''STRAVA_CLIENT_ID'')
                   then environ w ''STRAVA_CLIENT_ID'' else client_id c) \<and>
            csec = (if truthy_str (environ w ''STRAVA_CLIENT_SECRET'')
                    then environ w ''STRAVA_CLIENT_SECRET'' else client_secret c))"
  using assms
  by (auto simp: load_def Let_def apply_env_overrides_def get_client_credentials_def
      split: sum.splits if_splits option.splits)

theorem env_overrides_witness:
  "load (Some [''cfg.toml'']) override_world
     = Inr (file_credentials_doc
              \<lparr>auth := (auth file_credentials_doc)\<lparr>access_token := Some ''env-token''\<rparr>\<rparr>) \<and>
   get_client_credentials
     (Some (file_credentials_doc
              \<lparr>auth := (auth file_credentials_doc)\<lparr>access_token := Some ''env-token''\<rparr>\<rparr>))
     override_world = Inr (Some ''env-id'', Some ''env-secret'')"
proof -
  have l: "load (Some [''cfg.toml'']) override_world
     = Inr (file_credentials_doc
              \<lparr>auth := (auth file_credentials_doc)\<lparr>access_token := Some ''env-token''\<rparr>\<rparr>)"
    by code_simp
  show ?thesis
    using env_overrides [OF l, of "[''cfg.toml'']"] l
    by (simp add: override_world_def bare_world_def truthy_str_def)
qed

subsection \<open>Refreshing the token\<close>

text \<open>
  C4, as stated, fails for the command \<^verbatim>\<open>strava auth refresh\<close>: with a refresh
  token but no client credentials it prints an error and leaves through
  \<^verbatim>\<open>typer.Exit(2)\<close>; no \<^verbatim>\<open>MissingCredentialsError\<close> is raised.
\<close>

theorem refresh_command_counterexample:
  "map_sum id auth (load None token_only_world)
     = Inr (AuthConfig_default\<lparr>refresh_token := Some ''r''\<rparr>) \<and>
   get_client_credentials None token_only_world = Inr (None, None) \<and>
   fst (refresh post_down token_only_world) = Exited 2 \<and>
   fst (refresh post_down token_only_world) \<noteq> Uncaught MissingCredentialsError"
  by (simp add: refresh_def token_only_world_def bare_world_def load_def get_config_path_def
      get_config_dir_def truthy_str_def apply_env_overrides_def get_client_credentials_def
      Config_default_def AuthConfig_default_def Let_def)

text \<open>
  C4, amended. A successful \<^verbatim>\<open>StravaClient.refresh_token\<close> overwrites the access
  token, the refresh token and the expiry of the client's record with the values the
  token endpoint returned, leaves its athlete id as it was, and writes the updated
  configuration to the default path; without configured client credentials it raises
  \<^verbatim>\<open>MissingCredentialsError\<close>. A successful \<^verbatim>\<open>strava auth refresh\<close> writes the
  loaded configuration with only these three fields of the default record replaced;
  with a refresh token but without client credentials the command exits with status 2.
\<close>

theorem refresh_keeps_athlete_id:
  "(client_refresh_token endpoint py_int sc w = (Inr ok, sc1, w1) \<longrightarrow>
      (\<exists>response n s r.
          endpoint n s r = Inr response \<and>
          access_token (client_auth sc1) = Some (resp_access_token response) \<and>
          refresh_token (client_auth sc1) = Some (resp_refresh_token response) \<and>
          expires_at (client_auth sc1) = Some (resp_expires_at response)) \<and>
      athlete_id (client_auth sc1) = athlete_id (client_auth sc) \<and>
      fs w1 (get_config_path w) = Some (File (save_text (config sc1)) 384)) \<and>
   (\<forall>cid csec. get_client_credentials None w = Inr (cid, csec) \<and>
        (\<not> truthy_str cid \<or> \<not> truthy_str csec) \<longrightarrow>
      fst (client_refresh_token endpoint py_int sc w) = Inl MissingCredentialsError) \<and>
   (refresh post w = (Returned, w2) \<longrightarrow>
      (\<exists>cfg d i s r.
          load None w = Inr cfg \<and> post i s r = Inr d \<and>
          fs w2 (get_config_path w)
            = Some (File (save_text
                (cfg\<lparr>auth := (auth cfg)
                   \<lparr>access_token := Some (resp_access_token d),
                    refresh_token := Some (resp_refresh_token d),
                    expires_at := Some (resp_expires_at d)\<rparr>\<rparr>)) 384))) \<and>
   (\<forall>cfg cid csec. load None w = Inr cfg \<and> truthy_str (refresh_token (auth cfg)) \<and>
        get_client_credentials None w = Inr (cid, csec) \<and>
        (\<not> truthy_str cid \<or> \<not> truthy_str csec) \<longrightarrow>
      fst (refresh post w) = Exited 2)"
proof (intro conjI allI impI)
  assume a: "client_refresh_token endpoint py_int sc w = (Inr ok, sc1, w1)"
  then obtain response n s r w0 where
      e: "endpoint n s r = Inr response"
    and sc1: "sc1 = update_auth
          (\<lambda>a. a\<lparr>access_token := Some (resp_access_token response),
                  refresh_token := Some (resp_refresh_token response),
                  expires_at := Some (resp_expires_at response)\<rparr>) sc"
    and sv: "save (config sc1) None w0 = (Inr (), w1)"
    and w0: "get_config_path w0 = get_config_path w"
    by (auto simp: client_refresh_token_def Let_def get_config_path_log
        split: sum.splits option.splits prod.splits if_splits)
  from e sc1 show "\<exists>response n s r.
          endpoint n s r = Inr response \<and>
          access_token (client_auth sc1) = Some (resp_access_token response) \<and>
          refresh_token (client_auth sc1) = Some (resp_refresh_token response) \<and>
          expires_at (client_auth sc1) = Some (resp_expires_at response)"
    by (auto simp: client_auth_update)
  from sc1 show "athlete_id (client_auth sc1) = athlete_id (client_auth sc)"
    by (simp add: client_auth_update)
  from save_completed [OF sv, of "get_config_path w0"] w0
  show "fs w1 (get_config_path w) = Some (File (save_text (config sc1)) 384)"
    by simp
next
  fix cid csec
  assume "get_client_credentials None w = Inr (cid, csec) \<and>
        (\<not> truthy_str cid \<or> \<not> truthy_str csec)"
  then show "fst (client_refresh_token endpoint py_int sc w) = Inl MissingCredentialsError"
    by (auto simp: client_refresh_token_def Let_def)
next
  assume a: "refresh post w = (Returned, w2)"
  then obtain cfg d i s r w1 where
      l: "load None w = Inr cfg"
    and p: "post i s r = Inr d"
    and sv: "save (cfg\<lparr>auth := (auth cfg)
                   \<lparr>access_token := Some (resp_access_token d),
                    refresh_token := Some (resp_refresh_token d),
                    expires_at := Some (resp_expires_at d)\<rparr>\<rparr>) None w1 = (Inr (), w2)"
    and w1: "get_config_path w1 = get_config_path w"
    by (auto simp: refresh_def refresh_access_token_def Let_def get_config_path_log
        split: sum.splits option.splits prod.splits if_splits)
  from save_completed [OF sv, of "get_config_path w1"] w1 l p
  show "\<exists>cfg d i s r.
          load None w = Inr cfg \<and> post i s r = Inr d \<and>
          fs w2 (get_config_path w)
            = Some (File (save_text
                (cfg\<lparr>auth := (auth cfg)
                   \<lparr>access_token := Some (resp_access_token d),
                    refresh_token := Some (resp_refresh_token d),
                    expires_at := Some (resp_expires_at d)\<rparr>\<rparr>)) 384)"
    by auto
next
  fix cfg cid csec
  assume "load None w = Inr cfg \<and> truthy_str (refresh_token (auth cfg)) \<and>
        get_client_credentials None w = Inr (cid, csec) \<and>
        (\<not> truthy_str cid \<or> \<not> truthy_str csec)"
  then show "fst (refresh post w) = Exited 2"
    by (auto simp: refresh_def)
qed

theorem refresh_keeps_athlete_id_witness:
  "fst (client_refresh_token endpoint_ok decimal_int athlete_client cred_world) = Inr True \<and>
   athlete_id (client_auth (fst (snd
      (client_refresh_token endpoint_ok decimal_int athlete_client cred_world)))) = Some 42 \<and>
   access_token (client_auth (fst (snd
      (client_refresh_token endpoint_ok decimal_int athlete_client cred_world)))) = Some ''a1'' \<and>
   fst (client_refresh_token endpoint_ok decimal_int athlete_client bare_world)
     = Inl MissingCredentialsError \<and>
   fst (refresh post_down token_only_world) = Exited 2"
proof -
  have d: "decimal_int ''12345'' = Some 12345"
    by (simp add: decimal_int_def parse_integer_def is_digit_def nat_of_digits_def)
  have s: "fst (client_refresh_token endpoint_ok decimal_int athlete_client cred_world) = Inr True"
    by (simp add: client_refresh_token_def cred_world_def bare_world_def get_client_credentials_def
        truthy_str_def athlete_client_def client_auth_def get_profile_def Config_default_def
        AuthConfig_default_def d endpoint_ok_def update_auth_def save_def get_config_path_def
        get_config_dir_def parent_def mkdir_parents.simps chmod_def write_text_def emit_def Let_def)
  have m: "get_client_credentials None bare_world = Inr (None, None)"
    by (simp add: bare_world_def get_client_credentials_def truthy_str_def load_def
        get_config_path_def get_config_dir_def apply_env_overrides_def Config_default_def Let_def)
  have a: "athlete_id (client_auth athlete_client) = Some 42"
    by (simp add: athlete_client_def client_auth_def get_profile_def Config_default_def
        AuthConfig_default_def)
  obtain sc1 w1 where r: "client_refresh_token endpoint_ok decimal_int athlete_client cred_world
      = (Inr True, sc1, w1)"
    using s by (metis prod.collapse)
  have l: "load None token_only_world
      = Inr (Config_default\<lparr>auth := AuthConfig_default\<lparr>refresh_token := Some ''r''\<rparr>\<rparr>)"
    by (simp add: token_only_world_def bare_world_def load_def get_config_path_def
        get_config_dir_def truthy_str_def apply_env_overrides_def Config_default_def Let_def)
  have e: "environ token_only_world ''STRAVA_CLIENT_ID'' = None"
      "environ token_only_world ''STRAVA_CLIENT_SECRET'' = None"
    by (simp_all add: token_only_world_def bare_world_def)
  have g: "get_client_credentials None token_only_world = Inr (None, None)"
    by (simp add: get_client_credentials_def l e truthy_str_def Config_default_def)
  have x: "fst (refresh post_down token_only_world) = Exited 2"
    using refresh_keeps_athlete_id [of endpoint_ok decimal_int athlete_client token_only_world
        True athlete_client token_only_world post_down token_only_world] l g
    by (simp add: truthy_str_def)
  show ?thesis
    using refresh_keeps_athlete_id [of endpoint_ok decimal_int athlete_client cred_world True sc1 w1]
          refresh_keeps_athlete_id [of endpoint_ok decimal_int athlete_client bare_world]
          r m a x
    by (auto simp: endpoint_ok_def new_tokens_def truthy_str_def)
qed

subsection \<open>Reading back what save wrote\<close>

lemma join_Cons: "xs \<noteq> [] \<Longrightarrow> join sep (x # xs) = x @ sep @ join sep xs"
  by (cases xs) simp_all

lemma split_on_plain: "c \<notin> set l \<Longrightarrow> split_on c l = [l]"
  by (induction l) auto

lemma split_on_append: "c \<notin> set l \<Longrightarrow> split_on c (l @ c # rest) = l # split_on c rest"
  by (induction l) auto

lemma split_on_join:
  "ls \<noteq> [] \<Longrightarrow> \<forall>l\<in>set ls. c \<notin> set l \<Longrightarrow> split_on c (join [c] ls) = ls"
proof (induction ls rule: list_nonempty_induct)
  case (single x)
  then show ?case by (simp add: split_on_plain)
next
  case (cons x xs)
  then show ?case by (simp add: join_Cons split_on_append)
qed

lemma plain_char_not_special:
  "plain_char c \<Longrightarrow> c \<noteq> CHR 0x22 \<and> c \<noteq> CHR 0x0A \<and> c \<noteq> CHR 0x5C"
  by (auto simp: plain_char_def)

lemma bare_char_not_special:
  "bare_char c \<Longrightarrow> c \<noteq> CHR ''.'' \<and> c \<noteq> CHR '' '' \<and> c \<noteq> CHR 0x0A \<and> c \<noteq> CHR '']'' \<and>
     c \<noteq> CHR ''['' \<and> c \<noteq> CHR 0x22 \<and> c \<noteq> CHR ''=''"
  by (auto simp: bare_char_def)

lemma is_digit_not_special:
  "is_digit c \<Longrightarrow> c \<noteq> CHR 0x22 \<and> c \<noteq> CHR 0x0A \<and> c \<noteq> CHR ''['' \<and> c \<noteq> CHR ''-''"
  by (auto simp: is_digit_def)

lemma digit_char_props:
  "d < 10 \<Longrightarrow> is_digit (digit_char d) \<and> (of_char (digit_char d) :: nat) = 48 + d"
  by (simp add: digit_char_def is_digit_def)

lemma char_of_48: "char_of (48::nat) = CHR ''0''"
proof -
  have "(of_char (char_of (48::nat)) :: nat) = of_char (CHR ''0'')" by simp
  then show ?thesis by (simp only: of_char_eq_iff)
qed

lemma digit_char_zero: "d < 10 \<Longrightarrow> digit_char d = CHR ''0'' \<longleftrightarrow> d = 0"
proof
  assume d: "d < 10" and "digit_char d = CHR ''0''"
  then have "(of_char (digit_char d) :: nat) = of_char (CHR ''0'')" by simp
  with d show "d = 0" by (simp add: digit_char_props)
next
  assume "d = 0" then show "digit_char d = CHR ''0''" by (simp add: digit_char_def char_of_48)
qed

lemma str_nat_nonempty: "str_nat n \<noteq> []"
  by (subst str_nat.simps) simp

lemma str_nat_digits: "list_all is_digit (str_nat n)"
proof (induction n rule: str_nat.induct)
  case (1 n)
  show ?case
  proof (cases "n < 10")
    case True
    then show ?thesis by (subst str_nat.simps) (simp add: digit_char_props)
  next
    case False
    with 1 show ?thesis by (subst str_nat.simps) (simp add: digit_char_props)
  qed
qed

lemma nat_of_digits_snoc:
  "nat_of_digits (ds @ [c]) = 10 * nat_of_digits ds + (of_char c - 48)"
  by (simp add: nat_of_digits_def)

lemma nat_of_digits_str_nat: "nat_of_digits (str_nat n) = n"
proof (induction n rule: str_nat.induct)
  case (1 n)
  show ?case
  proof (cases "n < 10")
    case True
    then show ?thesis
      by (subst str_nat.simps) (simp add: nat_of_digits_def digit_char_props)
  next
    case False
    with 1 show ?thesis
      by (subst str_nat.simps) (simp add: nat_of_digits_snoc digit_char_props)
  qed
qed

lemma str_nat_leading: "length (str_nat n) = 1 \<or> hd (str_nat n) \<noteq> CHR ''0''"
proof (induction n rule: str_nat.induct)
  case (1 n)
  show ?case
  proof (cases "n < 10")
    case True
    then show ?thesis by (subst str_nat.simps, subst str_nat.simps) simp
  next
    case False
    then have ih: "length (str_nat (n div 10)) = 1 \<or> hd (str_nat (n div 10)) \<noteq> CHR ''0''"
      using 1 by simp
    have pos: "n div 10 \<noteq> 0" using False by simp
    have hd0: "hd (str_nat (n div 10)) \<noteq> CHR ''0''"
    proof (cases "n div 10 < 10")
      case True
      then show ?thesis using pos
        by (subst str_nat.simps) (simp add: digit_char_zero)
    next
      case f: False
      have "length (str_nat (n div 10)) \<noteq> 1"
        using f str_nat_nonempty [of "n div 10 div 10"]
        by (subst str_nat.simps) (cases "str_nat (n div 10 div 10)", simp_all)
      with ih show ?thesis by simp
    qed
    show ?thesis
      using False hd0 str_nat_nonempty [of "n div 10"]
      by (subst (2) str_nat.simps) (simp add: hd_append)
  qed
qed

lemma parse_integer_str_int: "parse_integer (str_int i) = Inr (TInteger i)"
proof (cases "i < 0")
  case True
  then show ?thesis
    using str_nat_nonempty [of "nat (- i)"] str_nat_digits [of "nat (- i)"]
          str_nat_leading [of "nat (- i)"] nat_of_digits_str_nat [of "nat (- i)"]
    by (auto simp: parse_integer_def str_int_def Let_def)
next
  case False
  have "hd (str_nat (nat i)) \<noteq> CHR ''-''"
    using str_nat_nonempty [of "nat i"] str_nat_digits [of "nat i"] is_digit_not_special
    by (cases "str_nat (nat i)") auto
  with False show ?thesis
    using str_nat_nonempty [of "nat i"] str_nat_digits [of "nat i"]
          str_nat_leading [of "nat i"] nat_of_digits_str_nat [of "nat i"]
    by (auto simp: parse_integer_def str_int_def Let_def)
qed

lemma str_int_first:
  "\<exists>c cs. str_int i = c # cs \<and> c \<noteq> CHR 0x22 \<and> c \<noteq> CHR ''['' \<and> CHR 0x0A \<notin> set (str_int i)"
proof -
  have nl: "CHR 0x0A \<notin> set (str_nat n)" for n
    using str_nat_digits [of n] is_digit_not_special by (auto simp: list_all_iff)
  have hdn: "\<exists>c cs. str_nat n = c # cs \<and> c \<noteq> CHR 0x22 \<and> c \<noteq> CHR ''[''" for n
    using str_nat_nonempty [of n] str_nat_digits [of n] is_digit_not_special
    by (cases "str_nat n") auto
  show ?thesis using nl hdn by (auto simp: str_int_def)
qed

lemma parse_value_str_int: "parse_value (str_int i) = Inr (TInteger i)"
proof -
  from str_int_first [of i] obtain c cs where
    eq: "str_int i = c # cs" and c: "c \<noteq> CHR 0x22" "c \<noteq> CHR ''[''" by blast
  have "parse_value (c # cs) = parse_integer (c # cs)"
    using c by (simp add: parse_value_def)
  then show ?thesis by (simp add: eq [symmetric] parse_integer_str_int)
qed

lemma takeWhile_quote:
  "list_all plain_char s \<Longrightarrow>
   takeWhile (\<lambda>c. c \<noteq> CHR 0x22) (s @ CHR 0x22 # rest) = s \<and>
   dropWhile (\<lambda>c. c \<noteq> CHR 0x22) (s @ CHR 0x22 # rest) = CHR 0x22 # rest"
  using plain_char_not_special
  by (induction s) auto

lemma parse_basic_string_quoted:
  "list_all plain_char s \<Longrightarrow> parse_basic_string (s @ CHR 0x22 # rest) = Inr (s, rest)"
  by (simp add: parse_basic_string_def takeWhile_quote Let_def)

lemma quoted_append: "quoted s @ rest = CHR 0x22 # s @ CHR 0x22 # rest"
  by (simp add: quoted_def)

lemma parse_value_quoted:
  "list_all plain_char s \<Longrightarrow> parse_value (quoted s) = Inr (TString s)"
  by (simp add: parse_value_def quoted_def parse_basic_string_quoted)

lemma parse_array_items_join:
  "ss \<noteq> [] \<Longrightarrow> list_all (list_all plain_char) ss \<Longrightarrow>
   parse_array_items (join '', '' (map quoted ss) @ '']'') = Inr ss"
proof (induction ss rule: list_nonempty_induct)
  case (single s)
  then show ?case
    by (subst parse_array_items.simps) (simp add: quoted_append takeWhile_quote Let_def)
next
  case (cons s ss)
  then have ne: "map quoted ss \<noteq> []" by simp
  from cons show ?case
    by (subst parse_array_items.simps)
       (simp add: join_Cons [OF ne] quoted_append takeWhile_quote Let_def)
qed

lemma parse_value_array:
  "ss \<noteq> [] \<Longrightarrow> list_all (list_all plain_char) ss \<Longrightarrow>
   parse_value (''['' @ join '', '' (map quoted ss) @ '']'') = Inr (TArray ss)"
proof -
  assume ne: "ss \<noteq> []" and pl: "list_all (list_all plain_char) ss"
  have "join '', '' (map quoted ss) @ '']'' \<noteq> '']''"
    using ne by (cases ss; cases "tl ss") (auto simp: quoted_def)
  then show ?thesis
    using parse_array_items_join [OF ne pl] by (simp add: parse_value_def)
qed

lemma not_bare_space: "\<not> bare_char (CHR '' '')"
  by (simp add: bare_char_def)

lemma takeWhile_bare:
  "list_all bare_char k \<Longrightarrow>
   takeWhile bare_char (k @ CHR '' '' # v) = k \<and> dropWhile bare_char (k @ CHR '' '' # v) = CHR '' '' # v"
  by (induction k) (auto simp: not_bare_space)

lemma parse_line_nonheader:
  "l \<noteq> [] \<Longrightarrow> hd l \<noteq> CHR ''['' \<Longrightarrow>
   parse_line l =
     (if takeWhile bare_char l = [] \<or> take 3 (dropWhile bare_char l) \<noteq> '' = ''
      then Inl Unsupported
      else (case parse_value (drop 3 (dropWhile bare_char l)) of
              Inl e \<Rightarrow> Inl e
            | Inr v \<Rightarrow> Inr (KeyValue (takeWhile bare_char l) v)))"
  by (cases l) (auto simp: parse_line_def Let_def split: sum.splits)

lemma parse_line_keyval:
  assumes "bare_key k" and "parse_value v = Inr x"
  shows "parse_line (k @ CHR '' '' # CHR ''='' # CHR '' '' # v) = Inr (KeyValue k x)"
proof -
  from assms(1) have ne: "k \<noteq> []" and b: "list_all bare_char k"
    by (auto simp: bare_key_def)
  then have "bare_char (hd k)" by (cases k) auto
  then have c: "hd k \<noteq> CHR ''[''" using bare_char_not_special by blast
  have tw: "takeWhile bare_char (k @ CHR '' '' # CHR ''='' # CHR '' '' # v) = k"
    and dw: "dropWhile bare_char (k @ CHR '' '' # CHR ''='' # CHR '' '' # v)
               = CHR '' '' # CHR ''='' # CHR '' '' # v"
    using takeWhile_bare [OF b] by simp_all
  show ?thesis
    using ne c assms(2)
    by (subst parse_line_nonheader) (simp_all add: tw dw)
qed

lemma parse_line_profile_header:
  assumes "bare_key n"
  shows "parse_line (''[profiles.'' @ n @ '']'') = Inr (Header [''profiles'', n])"
proof -
  from assms have ne: "n \<noteq> []" and b: "list_all bare_char n" by (auto simp: bare_key_def)
  then have dot: "CHR ''.'' \<notin> set n" using bare_char_not_special by (auto simp: list_all_iff)
  have sp: "split_on CHR ''.'' (''profiles.'' @ n) = [''profiles'', n]"
    using split_on_append [of "CHR ''.''" "''profiles''" n] split_on_plain [OF dot] by simp
  have bl: "butlast (''profiles.'' @ n @ '']'') = ''profiles.'' @ n"
    by (simp add: butlast_append)
  have la: "last (''profiles.'' @ n @ '']'') = CHR '']''" by simp
  have pb: "list_all bare_char ''profiles''" by (simp add: bare_char_def)
  have "parse_header (''profiles.'' @ n @ '']'') = Inr [''profiles'', n]"
    unfolding parse_header_def Let_def bl la sp using b ne pb by simp
  then show ?thesis by (simp add: parse_line_def)
qed

lemma parse_lines_blank: "parse_lines doc ([] # ls) = parse_lines doc ls"
  by (simp add: parse_line_def)

lemma parse_lines_header:
  "parse_line l = Inr (Header p) \<Longrightarrow> p \<notin> fst ` set doc \<Longrightarrow> supported_path p \<Longrightarrow>
   parse_lines doc (l # ls) = parse_lines (doc @ [(p, [])]) ls"
  by simp

lemma parse_lines_keyval:
  "parse_line l = Inr (KeyValue k v) \<Longrightarrow> k \<notin> fst ` set kvs \<Longrightarrow>
   parse_lines (doc @ [(p, kvs)]) (l # ls) = parse_lines (doc @ [(p, kvs @ [(k, v)])]) ls"
  by simp

lemma parse_lines_str_line:
  "bare_key k \<Longrightarrow> opt_plain v \<Longrightarrow> k \<notin> fst ` set kvs \<Longrightarrow>
   parse_lines (doc @ [(p, kvs)]) (str_line k v @ ls)
     = parse_lines (doc @ [(p, kvs @ str_entry k v)]) ls"
  by (auto simp: str_line_def str_entry_def opt_plain_def parse_line_keyval parse_value_quoted
      simp del: parse_lines.simps intro!: parse_lines_keyval split: option.splits)

lemma parse_lines_int_line:
  "bare_key k \<Longrightarrow> k \<notin> fst ` set kvs \<Longrightarrow>
   parse_lines (doc @ [(p, kvs)]) (int_line k v @ ls)
     = parse_lines (doc @ [(p, kvs @ int_entry k v)]) ls"
  by (auto simp: int_line_def int_entry_def parse_line_keyval parse_value_str_int
      simp del: parse_lines.simps intro!: parse_lines_keyval split: option.splits)

lemma keys_str_entry: "x \<in> fst ` set (str_entry k v) \<longleftrightarrow> x = k \<and> truthy_str v"
  by (auto simp: str_entry_def truthy_str_def split: option.splits)

lemma keys_int_entry: "x \<in> fst ` set (int_entry k v) \<longleftrightarrow> x = k \<and> truthy_int v"
  by (auto simp: int_entry_def truthy_int_def split: option.splits)

lemma bare_keys:
  "bare_key ''access_token''" "bare_key ''refresh_token''" "bare_key ''expires_at''"
  "bare_key ''athlete_id''" "bare_key ''scopes''" "bare_key ''id''" "bare_key ''secret''"
  "bare_key ''format''" "bare_key ''limit''"
  by (simp_all add: bare_key_def bare_char_def)

lemma parse_lines_token_lines:
  assumes "writable_tokens a"
  shows "parse_lines (doc @ [(p, [])]) (token_lines a @ ls)
           = parse_lines (doc @ [(p, token_entries a)]) ls"
proof -
  from assms have pa: "opt_plain (access_token a)" and pr: "opt_plain (refresh_token a)"
    by (simp_all add: writable_tokens_def)
  have "parse_lines (doc @ [(p, [])]) (token_lines a @ ls)
      = parse_lines (doc @ [(p, [])])
          (str_line ''access_token'' (access_token a) @
           (str_line ''refresh_token'' (refresh_token a) @
            (int_line ''expires_at'' (expires_at a) @
             (int_line ''athlete_id'' (athlete_id a) @ ls))))"
    by (simp add: token_lines_def)
  also have "\<dots> = parse_lines (doc @ [(p, [] @ str_entry ''access_token'' (access_token a))])
           (str_line ''refresh_token'' (refresh_token a) @
            (int_line ''expires_at'' (expires_at a) @
             (int_line ''athlete_id'' (athlete_id a) @ ls)))"
    by (rule parse_lines_str_line [OF bare_keys(1) pa]) simp
  also have "\<dots> = parse_lines (doc @ [(p, ([] @ str_entry ''access_token'' (access_token a)) @
              str_entry ''refresh_token'' (refresh_token a))])
            (int_line ''expires_at'' (expires_at a) @
             (int_line ''athlete_id'' (athlete_id a) @ ls))"
    by (rule parse_lines_str_line [OF bare_keys(2) pr]) (simp add: keys_str_entry)
  also have "\<dots> = parse_lines (doc @ [(p, (([] @ str_entry ''access_token'' (access_token a)) @
              str_entry ''refresh_token'' (refresh_token a)) @
              int_entry ''expires_at'' (expires_at a))])
             (int_line ''athlete_id'' (athlete_id a) @ ls)"
    by (rule parse_lines_int_line [OF bare_keys(3)]) (simp add: keys_str_entry image_Un)
  also have "\<dots> = parse_lines (doc @ [(p, ((([] @ str_entry ''access_token'' (access_token a)) @
              str_entry ''refresh_token'' (refresh_token a)) @
              int_entry ''expires_at'' (expires_at a)) @
              int_entry ''athlete_id'' (athlete_id a))]) ls"
    by (rule parse_lines_int_line [OF bare_keys(4)])
       (simp add: keys_str_entry keys_int_entry image_Un)
  finally show ?thesis by (simp add: token_entries_def)
qed

lemma keys_token_entries:
  "x \<in> fst ` set (token_entries a) \<Longrightarrow>
   x \<in> {''access_token'', ''refresh_token'', ''expires_at'', ''athlete_id''}"
  by (auto simp: token_entries_def keys_str_entry keys_int_entry image_Un)

lemma parse_lines_scopes_line:
  assumes "list_all (list_all plain_char) ss" and "''scopes'' \<notin> fst ` set kvs"
  shows "parse_lines (doc @ [(p, kvs)]) (scopes_line ss @ ls)
           = parse_lines (doc @ [(p, kvs @ scopes_entry ss)]) ls"
proof (cases "ss = []")
  case True
  then show ?thesis by (simp add: scopes_line_def scopes_entry_def del: parse_lines.simps)
next
  case False
  have "parse_line (''scopes'' @ CHR '' '' # CHR ''='' # CHR '' '' #
            (''['' @ join '', '' (map quoted ss) @ '']''))
          = Inr (KeyValue ''scopes'' (TArray ss))"
    by (rule parse_line_keyval [OF bare_keys(5) parse_value_array [OF False assms(1)]])
  then have "parse_line (''scopes = ['' @ join '', '' (map quoted ss) @ '']'')
          = Inr (KeyValue ''scopes'' (TArray ss))"
    by simp
  from parse_lines_keyval [OF this assms(2)] False
  show ?thesis by (simp add: scopes_line_def scopes_entry_def del: parse_lines.simps)
qed

lemma profile_table_pair: "profile_table (n, a) = ([''profiles'', n], token_entries a)"
  by (simp add: profile_table_def)

lemma supported_profile_path: "supported_path [''profiles'', n]"
  by (simp add: supported_path_def)

lemma parse_lines_profiles:
  "list_all (\<lambda>np. bare_key (fst np) \<and> writable_tokens (snd np)) ps \<Longrightarrow>
   distinct (map fst ps) \<Longrightarrow>
   \<forall>n \<in> fst ` set ps. [''profiles'', n] \<notin> fst ` set doc \<Longrightarrow>
   parse_lines doc (concat (map profile_lines ps) @ ls)
     = parse_lines (doc @ map profile_table ps) ls"
proof (induction ps arbitrary: doc)
  case Nil
  then show ?case by simp
next
  case (Cons np ps)
  obtain n a where np: "np = (n, a)" by (cases np)
  from Cons.prems np have bk: "bare_key n" and wt: "writable_tokens a"
    and new: "[''profiles'', n] \<notin> fst ` set doc" and nn: "n \<notin> fst ` set ps"
    by auto
  let ?rest = "concat (map profile_lines ps) @ ls"
  let ?doc = "doc @ [([''profiles'', n], token_entries a)]"
  have "parse_lines doc (concat (map profile_lines (np # ps)) @ ls)
      = parse_lines doc ((''[profiles.'' @ n @ '']'') # (token_lines a @ ([] # ?rest)))"
    by (simp add: np profile_lines_def del: parse_lines.simps)
  also have "\<dots> = parse_lines (doc @ [([''profiles'', n], [])]) (token_lines a @ ([] # ?rest))"
    by (rule parse_lines_header [OF parse_line_profile_header [OF bk] new supported_profile_path])
  also have "\<dots> = parse_lines ?doc ([] # ?rest)"
    by (rule parse_lines_token_lines [OF wt])
  also have "\<dots> = parse_lines ?doc ?rest"
    by (rule parse_lines_blank)
  also have "\<dots> = parse_lines (?doc @ map profile_table ps) ls"
  proof (rule Cons.IH)
    from Cons.prems show "list_all (\<lambda>np. bare_key (fst np) \<and> writable_tokens (snd np)) ps"
      by simp
    from Cons.prems show "distinct (map fst ps)" by simp
    from Cons.prems nn show "\<forall>m \<in> fst ` set ps. [''profiles'', m] \<notin> fst ` set ?doc"
      by auto
  qed
  finally show ?case by (simp add: np profile_table_pair del: parse_lines.simps)
qed

lemma parse_line_client: "parse_line ''[client]'' = Inr (Header [''client''])"
  by (simp add: parse_line_def parse_header_def bare_char_def)

lemma parse_line_auth: "parse_line ''[auth]'' = Inr (Header [''auth''])"
  by (simp add: parse_line_def parse_header_def bare_char_def)

lemma parse_line_defaults: "parse_line ''[defaults]'' = Inr (Header [''defaults''])"
  by (simp add: parse_line_def parse_header_def bare_char_def)

lemma supported_sections:
  "supported_path [''client'']" "supported_path [''auth'']" "supported_path [''defaults'']"
  by (simp_all add: supported_path_def)

lemma parse_lines_client:
  assumes "opt_plain (client_id c)" and "opt_plain (client_secret c)"
  shows "parse_lines []
           ((if truthy_str (client_id c) \<or> truthy_str (client_secret c)
             then [''[client]''] @ str_line ''id'' (client_id c) @
                  str_line ''secret'' (client_secret c) @ [[]]
             else []) @ ls)
         = parse_lines (client_table c) ls"
proof (cases "truthy_str (client_id c) \<or> truthy_str (client_secret c)")
  case False
  then show ?thesis by (simp add: client_table_def del: parse_lines.simps)
next
  case True
  have "parse_lines [] (''[client]'' #
            (str_line ''id'' (client_id c) @ (str_line ''secret'' (client_secret c) @ ([] # ls))))
      = parse_lines ([] @ [([''client''], [])])
            (str_line ''id'' (client_id c) @ (str_line ''secret'' (client_secret c) @ ([] # ls)))"
    by (rule parse_lines_header [OF parse_line_client _ supported_sections(1)]) simp
  also have "\<dots> = parse_lines ([] @ [([''client''], [] @ str_entry ''id'' (client_id c))])
            (str_line ''secret'' (client_secret c) @ ([] # ls))"
    by (rule parse_lines_str_line [OF bare_keys(6) assms(1)]) simp
  also have "\<dots> = parse_lines ([] @ [([''client''], ([] @ str_entry ''id'' (client_id c)) @
              str_entry ''secret'' (client_secret c))]) ([] # ls)"
    by (rule parse_lines_str_line [OF bare_keys(7) assms(2)]) (simp add: keys_str_entry)
  also have "\<dots> = parse_lines ([] @ [([''client''], ([] @ str_entry ''id'' (client_id c)) @
              str_entry ''secret'' (client_secret c))]) ls"
    by (rule parse_lines_blank)
  finally show ?thesis using True by (simp add: client_table_def del: parse_lines.simps)
qed

lemma client_table_keys: "fst ` set (client_table c) \<subseteq> {[''client'']}"
  by (auto simp: client_table_def)

lemma parse_line_format:
  "list_all plain_char f \<Longrightarrow>
   parse_line (''format = '' @ quoted f) = Inr (KeyValue ''format'' (TString f))"
  using parse_line_keyval [OF bare_keys(8) parse_value_quoted, of f] by simp

lemma parse_line_limit:
  "parse_line (''limit = '' @ str_int n) = Inr (KeyValue ''limit'' (TInteger n))"
  using parse_line_keyval [OF bare_keys(9) parse_value_str_int, of n] by simp

lemma parse_save_lines:
  assumes "writable c"
  shows "parse_lines [] (save_lines c) = Inr (toml_of c)"
proof -
  from assms have pc: "opt_plain (client_id c)" "opt_plain (client_secret c)"
    and wa: "writable_tokens (auth c)"
    and ps: "list_all (list_all plain_char) (scopes (auth c))"
    and pf: "list_all plain_char (format (defaults c))"
    and wp: "list_all (\<lambda>np. bare_key (fst np) \<and> writable_tokens (snd np)) (profiles c)"
    and di: "distinct (map fst (profiles c))"
    by (simp_all add: writable_def)
  let ?D = "client_table c"
  let ?A = "token_entries (auth c) @ scopes_entry (scopes (auth c))"
  let ?F = "[(''format'', TString (format (defaults c))),
             (''limit'', TInteger (limit (defaults c)))]"
  let ?P = "concat (map profile_lines (profiles c)) @ []"
  let ?L4 = "(''limit = '' @ str_int (limit (defaults c))) # ([] # ?P)"
  let ?L3 = "(''format = '' @ quoted (format (defaults c))) # ?L4"
  let ?L2 = "[] # ''[defaults]'' # ?L3"
  let ?L1 = "token_lines (auth c) @ (scopes_line (scopes (auth c)) @ ?L2)"
  have "parse_lines [] (save_lines c)
      = parse_lines []
          ((if truthy_str (client_id c) \<or> truthy_str (client_secret c)
            then [''[client]''] @ str_line ''id'' (client_id c) @
                 str_line ''secret'' (client_secret c) @ [[]]
            else []) @ (''[auth]'' # ?L1))"
    by (simp add: save_lines_def del: parse_lines.simps)
  also have "\<dots> = parse_lines ?D (''[auth]'' # ?L1)"
    by (rule parse_lines_client [OF pc])
  also have "\<dots> = parse_lines (?D @ [([''auth''], [])]) ?L1"
    by (rule parse_lines_header [OF parse_line_auth _ supported_sections(2)])
       (use client_table_keys [of c] in auto)
  also have "\<dots> = parse_lines (?D @ [([''auth''], token_entries (auth c))])
        (scopes_line (scopes (auth c)) @ ?L2)"
    by (rule parse_lines_token_lines [OF wa])
  also have "\<dots> = parse_lines (?D @ [([''auth''], ?A)]) ?L2"
    by (rule parse_lines_scopes_line [OF ps])
       (use keys_token_entries [of "''scopes''" "auth c"] in auto)
  also have "\<dots> = parse_lines (?D @ [([''auth''], ?A)]) (''[defaults]'' # ?L3)"
    by (rule parse_lines_blank)
  also have "\<dots> = parse_lines ((?D @ [([''auth''], ?A)]) @ [([''defaults''], [])]) ?L3"
    by (rule parse_lines_header [OF parse_line_defaults _ supported_sections(3)])
       (use client_table_keys [of c] in auto)
  also have "\<dots> = parse_lines ((?D @ [([''auth''], ?A)]) @
        [([''defaults''], [] @ [(''format'', TString (format (defaults c)))])]) ?L4"
    by (rule parse_lines_keyval [OF parse_line_format [OF pf]]) simp
  also have "\<dots> = parse_lines ((?D @ [([''auth''], ?A)]) @
        [([''defaults''], ([] @ [(''format'', TString (format (defaults c)))]) @
            [(''limit'', TInteger (limit (defaults c)))])]) ([] # ?P)"
    by (rule parse_lines_keyval [OF parse_line_limit]) simp
  also have "\<dots> = parse_lines ((?D @ [([''auth''], ?A)]) @
        [([''defaults''], ([] @ [(''format'', TString (format (defaults c)))]) @
            [(''limit'', TInteger (limit (defaults c)))])]) ?P"
    by (rule parse_lines_blank)
  also have "\<dots> = parse_lines ((?D @ [([''auth''], ?A)]) @ [([''defaults''], ?F)]) ?P"
    by simp
  also have "\<dots> = parse_lines (((?D @ [([''auth''], ?A)]) @ [([''defaults''], ?F)]) @
        map profile_table (profiles c)) []"
    by (rule parse_lines_profiles [OF wp di]) (use client_table_keys [of c] in auto)
  finally show ?thesis by (simp add: toml_of_def)
qed

lemma no_newline_join:
  "\<forall>x\<in>set xs. c \<notin> set x \<Longrightarrow> c \<notin> set sep \<Longrightarrow> c \<notin> set (join sep xs)"
  by (induction sep xs rule: join.induct) auto

lemma no_newline_plain: "list_all plain_char s \<Longrightarrow> CHR 0x0A \<notin> set s"
  using plain_char_not_special by (auto simp: list_all_iff)

lemma no_newline_bare: "list_all bare_char s \<Longrightarrow> CHR 0x0A \<notin> set s"
  using bare_char_not_special by (auto simp: list_all_iff)

lemma no_newline_str_int: "CHR 0x0A \<notin> set (str_int i)"
  using str_int_first [of i] by auto

lemma nl_str_line:
  "opt_plain v \<Longrightarrow> CHR 0x0A \<notin> set k \<Longrightarrow> list_all (\<lambda>l. CHR 0x0A \<notin> set l) (str_line k v)"
  by (auto simp: str_line_def opt_plain_def quoted_def dest: no_newline_plain
      split: option.splits)

lemma nl_int_line:
  "CHR 0x0A \<notin> set k \<Longrightarrow> list_all (\<lambda>l. CHR 0x0A \<notin> set l) (int_line k v)"
  using no_newline_str_int by (auto simp: int_line_def split: option.splits)

lemma nl_token_lines:
  "writable_tokens a \<Longrightarrow> list_all (\<lambda>l. CHR 0x0A \<notin> set l) (token_lines a)"
  by (simp add: token_lines_def writable_tokens_def nl_str_line nl_int_line)

lemma nl_scopes_line:
  assumes "list_all (list_all plain_char) ss"
  shows "list_all (\<lambda>l. CHR 0x0A \<notin> set l) (scopes_line ss)"
proof -
  have "\<forall>x\<in>set (map quoted ss). CHR 0x0A \<notin> set x"
  proof
    fix x assume "x \<in> set (map quoted ss)"
    then obtain s where s: "s \<in> set ss" and x: "x = quoted s" by auto
    from s assms have "list_all plain_char s" by (simp add: list_all_iff)
    then show "CHR 0x0A \<notin> set x" using no_newline_plain by (simp add: x quoted_def)
  qed
  then have "CHR 0x0A \<notin> set (join '', '' (map quoted ss))"
    by (rule no_newline_join) simp
  then show ?thesis by (simp add: scopes_line_def)
qed

lemma nl_profile_lines:
  "bare_key (fst np) \<Longrightarrow> writable_tokens (snd np) \<Longrightarrow>
   list_all (\<lambda>l. CHR 0x0A \<notin> set l) (profile_lines np)"
  by (simp add: profile_lines_def bare_key_def no_newline_bare nl_token_lines)

lemma nl_profiles:
  "list_all (\<lambda>np. bare_key (fst np) \<and> writable_tokens (snd np)) ps \<Longrightarrow>
   list_all (\<lambda>l. CHR 0x0A \<notin> set l) (concat (map profile_lines ps))"
  by (induction ps) (simp_all add: nl_profile_lines)

lemma nl_save_lines:
  assumes "writable c"
  shows "list_all (\<lambda>l. CHR 0x0A \<notin> set l) (save_lines c)"
proof -
  from assms have pc: "opt_plain (client_id c)" "opt_plain (client_secret c)"
    and wa: "writable_tokens (auth c)"
    and ps: "list_all (list_all plain_char) (scopes (auth c))"
    and pf: "list_all plain_char (format (defaults c))"
    and wp: "list_all (\<lambda>np. bare_key (fst np) \<and> writable_tokens (snd np)) (profiles c)"
    by (simp_all add: writable_def)
  have a: "list_all (\<lambda>l. CHR 0x0A \<notin> set l) (str_line ''id'' (client_id c))"
    and b: "list_all (\<lambda>l. CHR 0x0A \<notin> set l) (str_line ''secret'' (client_secret c))"
    using pc by (simp_all add: nl_str_line)
  have f: "CHR 0x0A \<notin> set (quoted (format (defaults c)))"
    using no_newline_plain [OF pf] by (simp add: quoted_def)
  show ?thesis
    unfolding save_lines_def
    using a b f nl_token_lines [OF wa] nl_scopes_line [OF ps] nl_profiles [OF wp]
          no_newline_str_int [of "limit (defaults c)"]
    by simp
qed

lemma save_lines_nonempty: "save_lines c \<noteq> []"
  by (simp add: save_lines_def)

lemma toml_loads_save_text:
  assumes "writable c"
  shows "toml_loads (save_text c) = Inr (toml_of c)"
proof -
  have "split_on (CHR 0x0A) (join [CHR 0x0A] (save_lines c)) = save_lines c"
    using nl_save_lines [OF assms] by (intro split_on_join save_lines_nonempty) (simp add: list_all_iff)
  then show ?thesis by (simp add: toml_loads_def save_text_def parse_save_lines [OF assms])
qed

lemma map_of_str_entry:
  "map_of (str_entry k v @ rest) x
     = (if x = k \<and> truthy_str v then map_option TString v else map_of rest x)"
  by (auto simp: str_entry_def truthy_str_def split: option.splits)

lemma map_of_int_entry:
  "map_of (int_entry k v @ rest) x
     = (if x = k \<and> truthy_int v then map_option TInteger v else map_of rest x)"
  by (auto simp: int_entry_def truthy_int_def split: option.splits)

lemma map_of_scopes_entry:
  "map_of (scopes_entry ss) x = (if x = ''scopes'' \<and> ss \<noteq> [] then Some (TArray ss) else None)"
  by (simp add: scopes_entry_def)

lemma get_string_kept:
  "get_string (str_entry k v @ rest) k
     = (if truthy_str v then Inr v else get_string rest k)"
  by (auto simp: get_string_def map_of_str_entry truthy_str_def simp del: map_of_append split: option.splits)

lemma get_string_skip_str:
  "x \<noteq> k \<Longrightarrow> get_string (str_entry k v @ rest) x = get_string rest x"
  by (simp add: get_string_def map_of_str_entry del: map_of_append)

lemma get_string_skip_int:
  "x \<noteq> k \<Longrightarrow> get_string (int_entry k v @ rest) x = get_string rest x"
  by (simp add: get_string_def map_of_int_entry del: map_of_append)

lemma get_integer_kept:
  "get_integer (int_entry k v @ rest) k
     = (if truthy_int v then Inr v else get_integer rest k)"
  by (auto simp: get_integer_def map_of_int_entry truthy_int_def simp del: map_of_append split: option.splits)

lemma get_integer_skip_str:
  "x \<noteq> k \<Longrightarrow> get_integer (str_entry k v @ rest) x = get_integer rest x"
  by (simp add: get_integer_def map_of_str_entry del: map_of_append)

lemma get_integer_skip_int:
  "x \<noteq> k \<Longrightarrow> get_integer (int_entry k v @ rest) x = get_integer rest x"
  by (simp add: get_integer_def map_of_int_entry del: map_of_append)

lemma get_strings_skip_str:
  "x \<noteq> k \<Longrightarrow> get_strings (str_entry k v @ rest) x = get_strings rest x"
  by (simp add: get_strings_def map_of_str_entry del: map_of_append)

lemma get_strings_skip_int:
  "x \<noteq> k \<Longrightarrow> get_strings (int_entry k v @ rest) x = get_strings rest x"
  by (simp add: get_strings_def map_of_int_entry del: map_of_append)

lemma get_string_nil: "get_string [] k = Inr None"
  by (simp add: get_string_def)

lemma get_scopes_entry:
  "get_string (scopes_entry ss) x = (if x = ''scopes'' \<and> ss \<noteq> [] then Inl OutsideModel else Inr None)"
  "get_integer (scopes_entry ss) x = (if x = ''scopes'' \<and> ss \<noteq> [] then Inl OutsideModel else Inr None)"
  "get_strings (scopes_entry ss) ''scopes'' = Inr ss"
  by (simp_all add: get_string_def get_integer_def get_strings_def map_of_scopes_entry)

lemma auth_of_table_entries:
  "auth_of_table (token_entries a @ scopes_entry ss) = Inr (kept_tokens a ss)"
proof -
  let ?T = "str_entry ''access_token'' (access_token a) @
            (str_entry ''refresh_token'' (refresh_token a) @
             (int_entry ''expires_at'' (expires_at a) @
              (int_entry ''athlete_id'' (athlete_id a) @ scopes_entry ss)))"
  have t: "token_entries a @ scopes_entry ss = ?T" by (simp add: token_entries_def)
  have g1: "get_string ?T ''access_token'' = Inr (kept_str (access_token a))"
    by (simp add: get_string_kept get_string_skip_str get_string_skip_int get_scopes_entry
        kept_str_def)
  have g2: "get_string ?T ''refresh_token'' = Inr (kept_str (refresh_token a))"
    by (simp add: get_string_kept get_string_skip_str get_string_skip_int get_scopes_entry
        kept_str_def)
  have g3: "get_integer ?T ''expires_at'' = Inr (kept_int (expires_at a))"
    by (simp add: get_integer_kept get_integer_skip_str get_integer_skip_int get_scopes_entry
        kept_int_def)
  have g4: "get_integer ?T ''athlete_id'' = Inr (kept_int (athlete_id a))"
    by (simp add: get_integer_kept get_integer_skip_str get_integer_skip_int get_scopes_entry
        kept_int_def)
  have g5: "get_strings ?T ''scopes'' = Inr ss"
    by (simp add: get_strings_skip_str get_strings_skip_int get_scopes_entry)
  show ?thesis
    unfolding t auth_of_table_def g1 g2 g3 g4 g5
    by (simp add: and_then_def kept_tokens_def)
qed

lemma auth_of_table_tokens: "auth_of_table (token_entries a) = Inr (kept_tokens a [])"
  using auth_of_table_entries [of a "[]"] by (simp add: scopes_entry_def)

lemma empty_entries_default:
  "token_entries a @ scopes_entry ss = [] \<Longrightarrow> kept_tokens a ss = AuthConfig_default"
  by (auto simp: token_entries_def scopes_entry_def str_entry_def int_entry_def kept_tokens_def
        kept_str_def kept_int_def truthy_str_def truthy_int_def AuthConfig_default_def
      split: option.splits if_splits)

lemma map_of_profile_tables: "map_of (map profile_table ps) [x] = None"
  by (induction ps) (auto simp: profile_table_def)

lemma section_of_client:
  "section_of (toml_of c) ''client''
     = (if truthy_str (client_id c) \<or> truthy_str (client_secret c)
        then str_entry ''id'' (client_id c) @ str_entry ''secret'' (client_secret c) else [])"
  by (simp add: section_of_def toml_of_def client_table_def map_of_profile_tables)

lemma section_of_auth:
  "section_of (toml_of c) ''auth'' = token_entries (auth c) @ scopes_entry (scopes (auth c))"
  by (simp add: section_of_def toml_of_def client_table_def map_of_profile_tables)

lemma section_of_defaults:
  "section_of (toml_of c) ''defaults''
     = [(''format'', TString (format (defaults c))), (''limit'', TInteger (limit (defaults c)))]"
  by (simp add: section_of_def toml_of_def client_table_def map_of_profile_tables)

lemma profiles_of_tables:
  "profiles_of (map profile_table ps) = Inr (map (\<lambda>np. (fst np, kept_tokens (snd np) [])) ps)"
  by (induction ps) (simp_all add: profile_table_def auth_of_table_tokens and_then_def)

lemma profiles_of_toml_of:
  "profiles_of (toml_of c) = Inr (map (\<lambda>np. (fst np, kept_tokens (snd np) [])) (profiles c))"
  by (simp add: toml_of_def client_table_def profiles_of_tables)

lemma client_of_section:
  "(if section_of (toml_of c) ''client'' \<noteq> []
    then and_then (get_string (section_of (toml_of c) ''client'') ''id'') (\<lambda>i.
         and_then (get_string (section_of (toml_of c) ''client'') ''secret'') (\<lambda>s. Inr (i, s)))
    else Inr (None, None))
   = Inr (kept_str (client_id c), kept_str (client_secret c))"
proof (cases "truthy_str (client_id c) \<or> truthy_str (client_secret c)")
  case False
  then show ?thesis by (simp add: section_of_client kept_str_def)
next
  case True
  have g1: "get_string (str_entry ''id'' (client_id c) @ str_entry ''secret'' (client_secret c) @ [])
              ''id'' = Inr (kept_str (client_id c))"
    by (simp add: get_string_kept get_string_skip_str kept_str_def get_string_nil
        del: append_Nil2)
  have g2: "get_string (str_entry ''id'' (client_id c) @ str_entry ''secret'' (client_secret c) @ [])
              ''secret'' = Inr (kept_str (client_secret c))"
    by (simp add: get_string_kept get_string_skip_str kept_str_def get_string_nil
        del: append_Nil2)
  from True have ne: "str_entry ''id'' (client_id c) @ str_entry ''secret'' (client_secret c) \<noteq> []"
    by (auto simp: str_entry_def truthy_str_def split: option.splits)
  show ?thesis
    using True ne g1 g2 by (simp add: section_of_client and_then_def)
qed

lemma auth_of_section:
  "(if section_of (toml_of c) ''auth'' \<noteq> []
    then auth_of_table (section_of (toml_of c) ''auth'') else Inr AuthConfig_default)
   = Inr (kept_tokens (auth c) (scopes (auth c)))"
  using empty_entries_default [of "auth c" "scopes (auth c)"]
  by (simp add: section_of_auth auth_of_table_entries)

lemma defaults_of_section:
  "(if section_of (toml_of c) ''defaults'' \<noteq> []
    then defaults_of_table (section_of (toml_of c) ''defaults'') else Inr DefaultsConfig_default)
   = Inr (defaults c)"
  by (simp add: section_of_defaults defaults_of_table_def get_string_def get_integer_def
      and_then_def)

lemma load_from_data_toml_of: "load_from_data (toml_of c) = Inr (reloaded c)"
  unfolding load_from_data_def client_of_section auth_of_section defaults_of_section
    profiles_of_toml_of
  by (simp add: and_then_def reloaded_def)

text \<open>
  C3, as stated, fails: a configuration whose access token contains a double quote is
  saved without error, and the file written cannot be loaded again (the text is not
  valid TOML, the reader raises \<^verbatim>\<open>TOMLDecodeError\<close>).
\<close>

theorem save_load_counterexample:
  "fst (save quote_doc (Some [''cfg.toml'']) bare_world) = Inr () \<and>
   load_from_file [''cfg.toml''] (fs (snd (save quote_doc (Some [''cfg.toml'']) bare_world)))
     = Inl (Raised TOMLDecodeError)"
  by code_simp

text \<open>
  C3, amended. For every configuration whose strings need no escaping and whose
  profile names are distinct non-empty bare keys, saving and then loading the file
  gives a configuration with the same client id and secret, the same access token,
  refresh token, expiry, athlete id and scopes of the default record, the same
  defaults, the same profile names in the same order and, for every profile, the same
  access token, refresh token, expiry and athlete id; throughout, a value that is
  false for Python (an empty string, 0) comes back absent. Nothing is said about the
  scopes of a profile.
\<close>

theorem save_load_round_trip:
  assumes "writable c"
    and "save c path w = (Inr (), w')"
    and "p = (case path of Some q \<Rightarrow> q | None \<Rightarrow> get_config_path w)"
  shows "\<exists>c'. load_from_file p (fs w') = Inr c' \<and>
           client_id c' = kept_str (client_id c) \<and>
           client_secret c' = kept_str (client_secret c) \<and>
           auth c' = kept_tokens (auth c) (scopes (auth c)) \<and>
           defaults c' = defaults c \<and>
           map fst (profiles c') = map fst (profiles c) \<and>
           map (\<lambda>np. (snd np)\<lparr>scopes := []\<rparr>) (profiles c')
             = map (\<lambda>np. kept_tokens (snd np) []) (profiles c)"
proof -
  from save_completed [OF assms(2,3)]
  have f: "fs w' p = Some (File (save_text c) 384)" by simp
  have "load_from_file p (fs w') = Inr (reloaded c)"
    by (simp add: load_from_file_def f toml_loads_save_text [OF assms(1)] load_from_data_toml_of)
  then show ?thesis
    by (intro exI [of _ "reloaded c"]) (simp add: reloaded_def kept_tokens_def comp_def)
qed

theorem save_load_round_trip_witness:
  "writable sample_doc \<and>
   fst (save sample_doc (Some [''cfg.toml'']) bare_world) = Inr () \<and>
   map_sum id auth
     (load_from_file [''cfg.toml''] (fs (snd (save sample_doc (Some [''cfg.toml'']) bare_world))))
     = Inr (auth sample_doc) \<and>
   map_sum id client_id
     (load_from_file [''cfg.toml''] (fs (snd (save sample_doc (Some [''cfg.toml'']) bare_world))))
     = Inr (Some ''12345'')"
proof -
  have w: "writable sample_doc"
    by (simp add: writable_def sample_doc_def opt_plain_def writable_tokens_def plain_char_def
        bare_key_def bare_char_def DefaultsConfig_default_def)
  have s: "fst (save sample_doc (Some [''cfg.toml'']) bare_world) = Inr ()"
    by (simp add: save_def bare_world_def chmod_def write_text_def parent_def
        mkdir_parents.simps)
  then have e: "save sample_doc (Some [''cfg.toml'']) bare_world
      = (Inr (), snd (save sample_doc (Some [''cfg.toml'']) bare_world))"
    by (metis prod.collapse)
  from save_load_round_trip [OF w e, of "[''cfg.toml'']"] w s
  show ?thesis
    by (auto simp: sample_doc_def kept_tokens_def kept_str_def kept_int_def truthy_str_def
        truthy_int_def)
qed

end
